theory Spec2Isabelle
  imports Main
begin

section \<open>The rule \<open>require-atomic-updates\<close>: data model\<close>

text \<open>
  The rule of \<^verbatim>\<open>lib/rules/require-atomic-updates.js\<close> works on objects it gets from
  its collaborators: AST nodes (with parent links), escope scopes, references and variables,
  and the segments of the code path analysis. Objects are compared by identity in the source
  (\<^verbatim>\<open>node.parent.object === node\<close>, keys of \<^verbatim>\<open>Map\<close> and \<^verbatim>\<open>WeakMap\<close>), so every object is
  named by a reference (a number) and its fields are read from a store.
\<close>

type_synonym node_ref = nat
type_synonym scope_ref = nat
type_synonym var_ref = nat
type_synonym segment_ref = nat
type_synonym codepath_ref = nat

text \<open>
  The only failure of the source is JavaScript's \<^verbatim>\<open>TypeError\<close> on reading a property of
  \<^verbatim>\<open>null\<close> (\<^verbatim>\<open>node.parent.type\<close> at the root, \<^verbatim>\<open>stack.upper\<close> on an empty stack).
  A result is \<open>None\<close> when a loop never ends, \<open>Some (Inl TypeError)\<close> when the source
  throws, \<open>Some (Inr v)\<close> when it returns \<open>v\<close>.
\<close>

datatype error = TypeError

type_synonym 'a result = "(error + 'a) option"

definition returns :: "'a \<Rightarrow> 'a result" where
  "returns v = Some (Inr v)"

definition throws :: "error \<Rightarrow> 'a result" where
  "throws e = Some (Inl e)"

definition bindR :: "'a result \<Rightarrow> ('a \<Rightarrow> 'b result) \<Rightarrow> 'b result" where
  "bindR m f = (case m of None \<Rightarrow> None | Some (Inl e) \<Rightarrow> Some (Inl e) | Some (Inr v) \<Rightarrow> f v)"

text \<open>
  An AST node, with the fields the rule reads. \<open>parent = None\<close> is \<^verbatim>\<open>null\<close>; a child field
  that a node kind does not have (\<^verbatim>\<open>undefined\<close>) is \<open>None\<close> too.
\<close>

record ast_node =
  ntype :: string
  parent :: "node_ref option"
  name :: string
  object :: "node_ref option"
  left :: "node_ref option"
  right :: "node_ref option"
  operator :: "string option"
  async :: bool
  generator :: bool

text \<open>An escope reference: \<open>ref_identifier\<close> is \<^verbatim>\<open>reference.identifier\<close>, \<open>from_scope\<close> is \<^verbatim>\<open>reference.from\<close>, \<open>isRead\<close> is \<^verbatim>\<open>reference.isRead()\<close>.\<close>

record reference =
  ref_identifier :: node_ref
  resolved :: "var_ref option"
  from_scope :: scope_ref
  isRead :: bool
  writeExpr :: "node_ref option"

record scope =
  stype :: string
  variableScope :: scope_ref
  references :: "reference list"
  childScopes :: "scope_ref list"
  block :: node_ref

text \<open>
  A variable object: an escope variable, or the dummy object \<^verbatim>\<open>{ name, scope, references }\<close>
  that \<^verbatim>\<open>getVariable\<close> makes for an unresolved reference.
\<close>

record variable_obj =
  var_name :: string
  var_scope :: scope_ref
  var_references :: "reference list"

text \<open>
  The identity of a variable object, as the sets of \<^verbatim>\<open>SegmentInfo\<close> compare it: an escope
  variable is its reference; a dummy is created once for a name and kept in the map
  \<^verbatim>\<open>dummyVariables\<close> under that name, so the name identifies it.
\<close>

datatype variable = Resolved var_ref | Dummy string

text \<open>
  What the collaborators provide: the AST, the scope manager, \<^verbatim>\<open>getPropertyName\<close> of
  the package \<^verbatim>\<open>eslint-utils\<close> (a string, or \<open>None\<close> for \<^verbatim>\<open>null\<close>) and the scope that
  \<^verbatim>\<open>context.getScope()\<close> returns when the rule is created.
\<close>

record world =
  ast :: "node_ref \<Rightarrow> ast_node"
  scopes :: "scope_ref \<Rightarrow> scope"
  variables :: "var_ref \<Rightarrow> variable_obj"
  getPropertyName :: "node_ref \<Rightarrow> scope_ref \<Rightarrow> string option"
  globalScope :: scope_ref

section \<open>\<^verbatim>\<open>SegmentInfo\<close>\<close>

text \<open>
  A segment object: its identity and \<^verbatim>\<open>segment.prevSegments\<close> as the array stands when the
  segment is handed to \<^verbatim>\<open>initialize\<close>. An array of segments is a list of their identities.
\<close>

record PathSegment =
  ident :: segment_ref
  prevSegments :: "segment_ref list"

record seg_state =
  outdatedReadVariables :: "variable set"
  freshReadVariables :: "variable set"

text \<open>\<^verbatim>\<open>this.info\<close>, a \<^verbatim>\<open>WeakMap\<close> from segments to their two sets.\<close>

type_synonym segment_info = "segment_ref \<rightharpoonup> seg_state"

definition initialize_prev :: "segment_info \<Rightarrow> segment_ref \<Rightarrow> seg_state \<Rightarrow> seg_state" where
  "initialize_prev info prevSegment acc =
     (case info prevSegment of
        None \<Rightarrow> acc
      | Some i \<Rightarrow>
          \<lparr>outdatedReadVariables = outdatedReadVariables acc \<union> outdatedReadVariables i,
           freshReadVariables = freshReadVariables acc \<union> freshReadVariables i\<rparr>)"

definition initialize :: "segment_info \<Rightarrow> PathSegment \<Rightarrow> segment_info" where
  "initialize info segment =
     info(ident segment \<mapsto>
       fold (initialize_prev info) (prevSegments segment)
         \<lparr>outdatedReadVariables = {}, freshReadVariables = {}\<rparr>)"

definition markAsRead_segment :: "variable \<Rightarrow> segment_ref \<Rightarrow> segment_info \<Rightarrow> segment_info" where
  "markAsRead_segment variable segment info =
     (case info segment of
        None \<Rightarrow> info
      | Some i \<Rightarrow>
          info(segment \<mapsto> i\<lparr>freshReadVariables := insert variable (freshReadVariables i)\<rparr>))"

definition markAsRead :: "segment_info \<Rightarrow> segment_ref list \<Rightarrow> variable \<Rightarrow> segment_info" where
  "markAsRead info segments variable = fold (markAsRead_segment variable) segments info"

text \<open>
  \<^verbatim>\<open>makeOutdated\<close> also fills a local set \<^verbatim>\<open>vars\<close> that nothing reads; it is left out.
\<close>

definition makeOutdated_segment :: "segment_ref \<Rightarrow> segment_info \<Rightarrow> segment_info" where
  "makeOutdated_segment segment info =
     (case info segment of
        None \<Rightarrow> info
      | Some i \<Rightarrow>
          info(segment \<mapsto>
            \<lparr>outdatedReadVariables = outdatedReadVariables i \<union> freshReadVariables i,
             freshReadVariables = {}\<rparr>))"

definition makeOutdated :: "segment_info \<Rightarrow> segment_ref list \<Rightarrow> segment_info" where
  "makeOutdated info segments = fold makeOutdated_segment segments info"

fun isOutdated :: "segment_info \<Rightarrow> segment_ref list \<Rightarrow> variable \<Rightarrow> bool" where
  "isOutdated info [] variable = False"
| "isOutdated info (segment # segments) variable =
     (case info segment of
        None \<Rightarrow> isOutdated info segments variable
      | Some i \<Rightarrow>
          if variable \<in> outdatedReadVariables i then True
          else isOutdated info segments variable)"


section \<open>Names and write expressions of references\<close>

text \<open>\<^verbatim>\<open>names.join(".")\<close>.\<close>

fun join :: "string \<Rightarrow> string list \<Rightarrow> string" where
  "join sep [] = []"
| "join sep [x] = x"
| "join sep (x # y # ys) = x @ sep @ join sep (y # ys)"

text \<open>
  \<^verbatim>\<open>getPropertyName(node.parent, reference.from) || "*"\<close>: \<^verbatim>\<open>null\<close> and the empty string are
  the falsy results.
\<close>

definition propertyNameOrStar :: "world \<Rightarrow> node_ref \<Rightarrow> scope_ref \<Rightarrow> string" where
  "propertyNameOrStar w member from =
     (case getPropertyName w member from of
        None \<Rightarrow> ''*''
      | Some s \<Rightarrow> if s = [] then ''*'' else s)"

text \<open>
  The loop of \<^verbatim>\<open>getReferenceName\<close>. \<^verbatim>\<open>node\<close> is never \<^verbatim>\<open>null\<close> in it: the loop goes on
  with \<^verbatim>\<open>node.parent\<close> only after reading \<^verbatim>\<open>node.parent.type\<close>.
\<close>

partial_function (option) getReferenceName_loop ::
  "world \<Rightarrow> reference \<Rightarrow> node_ref \<Rightarrow> string list \<Rightarrow> (error + string list) option" where
  "getReferenceName_loop w reference node names =
     (case parent (ast w node) of
        None \<Rightarrow> Some (Inl TypeError)
      | Some p \<Rightarrow>
          if ntype (ast w p) = ''MemberExpression'' \<and> object (ast w p) = Some node
          then getReferenceName_loop w reference p
                 (names @ [propertyNameOrStar w p (from_scope reference)])
          else Some (Inr names))"

definition getReferenceName :: "world \<Rightarrow> reference \<Rightarrow> string result" where
  "getReferenceName w reference =
     bindR (getReferenceName_loop w reference (ref_identifier reference)
              [name (ast w (ref_identifier reference))])
       (\<lambda>names. returns (join ''.'' names))"

partial_function (option) getWriteExpr_loop ::
  "world \<Rightarrow> node_ref \<Rightarrow> (error + node_ref option) option" where
  "getWriteExpr_loop w node =
     (case parent (ast w node) of
        None \<Rightarrow> Some (Inl TypeError)
      | Some p \<Rightarrow>
          if ntype (ast w p) = ''AssignmentExpression'' \<and> left (ast w p) = Some node
          then Some (Inr (right (ast w p)))
          else if ntype (ast w p) = ''MemberExpression'' \<and> object (ast w p) = Some node
          then getWriteExpr_loop w p
          else Some (Inr None))"

definition getWriteExpr :: "world \<Rightarrow> reference \<Rightarrow> node_ref option result" where
  "getWriteExpr w reference =
     (case writeExpr reference of
        Some e \<Rightarrow> returns (Some e)
      | None \<Rightarrow> getWriteExpr_loop w (ref_identifier reference))"

text \<open>
  \<^verbatim>\<open>variable.references.filter(reference => getReferenceName(reference) === referenceName)\<close>:
  the callback runs on every reference, in order.
\<close>

fun filterByName :: "world \<Rightarrow> string \<Rightarrow> reference list \<Rightarrow> reference list result" where
  "filterByName w referenceName [] = returns []"
| "filterByName w referenceName (reference # rest) =
     bindR (getReferenceName w reference) (\<lambda>n.
     bindR (filterByName w referenceName rest) (\<lambda>kept.
     returns (if n = referenceName then reference # kept else kept)))"

definition isLocalVariableWithoutEscape :: "world \<Rightarrow> variable_obj \<Rightarrow> string \<Rightarrow> bool result" where
  "isLocalVariableWithoutEscape w variable referenceName =
     (let functionScope = variableScope (scopes w (var_scope variable)) in
      bindR (filterByName w referenceName (var_references variable)) (\<lambda>kept.
      returns (list_all (\<lambda>reference. variableScope (scopes w (from_scope reference)) = functionScope)
                 kept)))"

section \<open>The reference map\<close>

fun forEach :: "('a \<Rightarrow> 's \<Rightarrow> 's option) \<Rightarrow> 'a list \<Rightarrow> 's \<Rightarrow> 's option" where
  "forEach body [] s = Some s"
| "forEach body (x # xs) s = Option.bind (body x s) (forEach body xs)"

lemma forEach_mono [partial_function_mono]:
  assumes "\<And>x s. mono_option (\<lambda>f. body f x s)"
  shows "mono_option (\<lambda>f. forEach (body f) xs s)"
proof (induction xs arbitrary: s)
  case Nil
  show ?case by (simp add: option.const_mono)
next
  case (Cons x xs)
  show ?case by (simp, rule bind_mono, rule assms, rule Cons.IH)
qed

type_synonym reference_map = "node_ref \<rightharpoonup> reference"

partial_function (option) createReferenceMap ::
  "world \<Rightarrow> scope_ref \<Rightarrow> reference_map \<Rightarrow> reference_map option" where
  "createReferenceMap w scope outReferenceMap =
     forEach (\<lambda>childScope m.
                if stype (scopes w childScope) \<noteq> ''function''
                then createReferenceMap w childScope m
                else Some m)
       (childScopes (scopes w scope))
       (fold (\<lambda>reference m. m(ref_identifier reference \<mapsto> reference))
          (references (scopes w scope)) outReferenceMap)"


section \<open>The rule's state and its handlers\<close>

text \<open>
  A frame of \<^verbatim>\<open>stack\<close>; the list of frames is the chain of \<^verbatim>\<open>upper\<close> links, the empty
  list is \<^verbatim>\<open>null\<close>.
\<close>

record frame =
  codePath :: codepath_ref
  referenceMap :: "reference_map option"

text \<open>
  A call of \<^verbatim>\<open>context.report\<close>: the node reported and the node \<^verbatim>\<open>node.parent.left\<close> whose
  source text is the message's \<^verbatim>\<open>value\<close>.
\<close>

record report =
  report_node :: node_ref
  messageId :: string
  data_value :: "node_ref option"

record rule_state =
  dummyVariables :: "string \<rightharpoonup> variable_obj"
  assignmentReferences :: "node_ref \<rightharpoonup> reference list"
  segmentInfo :: segment_info
  stack :: "frame list"
  reports :: "report list"

definition create :: rule_state where
  "create = \<lparr>dummyVariables = Map.empty, assignmentReferences = Map.empty,
     segmentInfo = Map.empty, stack = [], reports = []\<rparr>"

text \<open>
  \<^verbatim>\<open>getVariable\<close> returns the variable object: its identity and its fields as they stand
  after the call, and the state with the dummy created or extended.
\<close>

definition getVariable ::
  "world \<Rightarrow> rule_state \<Rightarrow> reference \<Rightarrow> (variable \<times> variable_obj) \<times> rule_state" where
  "getVariable w st reference =
     (case resolved reference of
        Some v \<Rightarrow> ((Resolved v, variables w v), st)
      | None \<Rightarrow>
          (let nm = name (ast w (ref_identifier reference));
               variable = (case dummyVariables st nm of
                             Some obj \<Rightarrow> obj
                           | None \<Rightarrow> \<lparr>var_name = nm, var_scope = globalScope w, var_references = []\<rparr>);
               variable' = variable\<lparr>var_references := var_references variable @ [reference]\<rparr>
           in ((Dummy nm, variable'), st\<lparr>dummyVariables := (dummyVariables st)(nm \<mapsto> variable')\<rparr>)))"

definition onCodePathStart :: "world \<Rightarrow> rule_state \<Rightarrow> codepath_ref \<Rightarrow> scope_ref \<Rightarrow> rule_state result" where
  "onCodePathStart w st cp scope =
     (let shouldVerify =
            (stype (scopes w scope) = ''function'' \<and>
             (async (ast w (block (scopes w scope))) \<or> generator (ast w (block (scopes w scope)))))
      in if shouldVerify
         then (case createReferenceMap w scope Map.empty of
                 None \<Rightarrow> None
               | Some m \<Rightarrow> returns (st\<lparr>stack := \<lparr>codePath = cp, referenceMap = Some m\<rparr> # stack st\<rparr>))
         else returns (st\<lparr>stack := \<lparr>codePath = cp, referenceMap = None\<rparr> # stack st\<rparr>))"

definition onCodePathEnd :: "rule_state \<Rightarrow> rule_state result" where
  "onCodePathEnd st =
     (case stack st of
        [] \<Rightarrow> throws TypeError
      | fr # upper \<Rightarrow> returns (st\<lparr>stack := upper\<rparr>))"

definition onCodePathSegmentStart :: "rule_state \<Rightarrow> PathSegment \<Rightarrow> rule_state result" where
  "onCodePathSegmentStart st segment =
     returns (st\<lparr>segmentInfo := initialize (segmentInfo st) segment\<rparr>)"

text \<open>
  The first \<^verbatim>\<open>if\<close> of the \<^verbatim>\<open>Identifier\<close> handler:
  \<^verbatim>\<open>reference.isRead() && !(writeExpr && writeExpr.parent.operator === "=")\<close>.
\<close>

definition addFreshRead ::
  "world \<Rightarrow> rule_state \<Rightarrow> reference \<Rightarrow> node_ref option \<Rightarrow> variable \<Rightarrow> segment_ref list
     \<Rightarrow> rule_state result" where
  "addFreshRead w st reference writeExpr' variable currentSegments =
     (let marked = st\<lparr>segmentInfo := markAsRead (segmentInfo st) currentSegments variable\<rparr> in
      if isRead reference
      then (case writeExpr' of
              None \<Rightarrow> returns marked
            | Some e \<Rightarrow>
                (case parent (ast w e) of
                   None \<Rightarrow> throws TypeError
                 | Some p \<Rightarrow> returns (if operator (ast w p) = Some ''='' then st else marked)))
      else returns st)"

text \<open>
  The second \<^verbatim>\<open>if\<close>:
  \<^verbatim>\<open>writeExpr && writeExpr.parent.right === writeExpr && !isLocalVariableWithoutEscape(...)\<close>.
\<close>

definition registerAssignment ::
  "world \<Rightarrow> rule_state \<Rightarrow> reference \<Rightarrow> node_ref option \<Rightarrow> variable_obj \<Rightarrow> string
     \<Rightarrow> rule_state result" where
  "registerAssignment w st reference writeExpr' variable referenceName =
     (case writeExpr' of
        None \<Rightarrow> returns st
      | Some e \<Rightarrow>
          (case parent (ast w e) of
             None \<Rightarrow> throws TypeError
           | Some p \<Rightarrow>
               if right (ast w p) = Some e
               then bindR (isLocalVariableWithoutEscape w variable referenceName) (\<lambda>isLocal.
                    returns
                      (if isLocal then st
                       else st\<lparr>assignmentReferences := (assignmentReferences st)(e \<mapsto>
                              (case assignmentReferences st e of None \<Rightarrow> [] | Some refs \<Rightarrow> refs)
                                @ [reference])\<rparr>))
               else returns st))"

text \<open>
  The handlers that read \<^verbatim>\<open>codePath.currentSegments\<close> take the array as it stands at the
  call: the code path analysis owns and updates it.
\<close>

definition Identifier ::
  "world \<Rightarrow> rule_state \<Rightarrow> node_ref \<Rightarrow> segment_ref list \<Rightarrow> rule_state result" where
  "Identifier w st node currentSegments =
     (case stack st of
        [] \<Rightarrow> throws TypeError
      | fr # upper \<Rightarrow>
          (case referenceMap fr of
             None \<Rightarrow> returns st
           | Some m \<Rightarrow>
               (case m node of
                  None \<Rightarrow> returns st
                | Some reference \<Rightarrow>
                    (case getVariable w st reference of
                       ((variable, obj), st1) \<Rightarrow>
                         bindR (getReferenceName w reference) (\<lambda>referenceName.
                         bindR (getWriteExpr w reference) (\<lambda>writeExpr'.
                         bindR (addFreshRead w st1 reference writeExpr' variable currentSegments)
                           (\<lambda>st2.
                         registerAssignment w st2 reference writeExpr' obj referenceName)))))))"

text \<open>The loop \<^verbatim>\<open>for (const reference of references)\<close> of \<^verbatim>\<open>:expression:exit\<close>.\<close>

fun verify ::
  "world \<Rightarrow> rule_state \<Rightarrow> node_ref \<Rightarrow> segment_ref list \<Rightarrow> reference list \<Rightarrow> rule_state result" where
  "verify w st node currentSegments [] = returns st"
| "verify w st node currentSegments (reference # rest) =
     (case getVariable w st reference of
        ((variable, obj), st1) \<Rightarrow>
          if isOutdated (segmentInfo st1) currentSegments variable
          then (case parent (ast w node) of
                  None \<Rightarrow> throws TypeError
                | Some p \<Rightarrow>
                    verify w
                      (st1\<lparr>reports := reports st1 @
                         [\<lparr>report_node = p, messageId = ''nonAtomicUpdate'',
                           data_value = left (ast w p)\<rparr>]\<rparr>)
                      node currentSegments rest)
          else verify w st1 node currentSegments rest)"

definition isSuspension :: "world \<Rightarrow> node_ref \<Rightarrow> bool" where
  "isSuspension w node =
     (ntype (ast w node) = ''AwaitExpression'' \<or> ntype (ast w node) = ''YieldExpression'')"

definition expression_exit ::
  "world \<Rightarrow> rule_state \<Rightarrow> node_ref \<Rightarrow> segment_ref list \<Rightarrow> rule_state result" where
  "expression_exit w st node currentSegments =
     (case stack st of
        [] \<Rightarrow> throws TypeError
      | fr # upper \<Rightarrow>
          (case referenceMap fr of
             None \<Rightarrow> returns st
           | Some m \<Rightarrow>
               (let st1 = (if isSuspension w node
                           then st\<lparr>segmentInfo := makeOutdated (segmentInfo st) currentSegments\<rparr>
                           else st)
                in case assignmentReferences st1 node of
                     None \<Rightarrow> returns st1
                   | Some refs \<Rightarrow>
                       verify w (st1\<lparr>assignmentReferences := (assignmentReferences st1)(node := None)\<rparr>)
                         node currentSegments refs)))"

section \<open>Traversals\<close>

text \<open>
  The calls ESLint makes on the rule's listeners during a traversal, with what the
  collaborators hand over at each: the scope \<^verbatim>\<open>context.getScope()\<close> returns, the segment
  that starts, the current segments of the code path on top of the stack.
\<close>

datatype event =
    CodePathStart codepath_ref scope_ref
  | CodePathEnd
  | CodePathSegmentStart PathSegment
  | IdentifierEnter node_ref "segment_ref list"
  | ExpressionExit node_ref "segment_ref list"

fun step :: "world \<Rightarrow> rule_state \<Rightarrow> event \<Rightarrow> rule_state result" where
  "step w st (CodePathStart cp scope) = onCodePathStart w st cp scope"
| "step w st CodePathEnd = onCodePathEnd st"
| "step w st (CodePathSegmentStart segment) = onCodePathSegmentStart st segment"
| "step w st (IdentifierEnter node currentSegments) = Identifier w st node currentSegments"
| "step w st (ExpressionExit node currentSegments) = expression_exit w st node currentSegments"

fun run :: "world \<Rightarrow> rule_state \<Rightarrow> event list \<Rightarrow> rule_state result" where
  "run w st [] = returns st"
| "run w st (e # es) = bindR (step w st e) (\<lambda>st'. run w st' es)"

section \<open>Notions used to state the properties\<close>

text \<open>The sets of a segment, empty for a segment that has no state.\<close>

definition outdatedOf :: "segment_info \<Rightarrow> segment_ref \<Rightarrow> variable set" where
  "outdatedOf info s = (case info s of None \<Rightarrow> {} | Some i \<Rightarrow> outdatedReadVariables i)"

definition freshOf :: "segment_info \<Rightarrow> segment_ref \<Rightarrow> variable set" where
  "freshOf info s = (case info s of None \<Rightarrow> {} | Some i \<Rightarrow> freshReadVariables i)"

text \<open>What \<^verbatim>\<open>makeOutdated\<close> and \<^verbatim>\<open>markAsRead\<close> do to the state of one segment.\<close>

definition promote :: "seg_state \<Rightarrow> seg_state" where
  "promote i = \<lparr>outdatedReadVariables = outdatedReadVariables i \<union> freshReadVariables i,
     freshReadVariables = {}\<rparr>"

definition addFresh :: "variable \<Rightarrow> seg_state \<Rightarrow> seg_state" where
  "addFresh v i = i\<lparr>freshReadVariables := insert v (freshReadVariables i)\<rparr>"

text \<open>The segments an event may touch: the one it starts, or the current ones.\<close>

fun activeSegments :: "event \<Rightarrow> segment_ref set" where
  "activeSegments (CodePathStart cp scope) = {}"
| "activeSegments CodePathEnd = {}"
| "activeSegments (CodePathSegmentStart segment) = {ident segment}"
| "activeSegments (IdentifierEnter node currentSegments) = set currentSegments"
| "activeSegments (ExpressionExit node currentSegments) = set currentSegments"

text \<open>
  A traversal without suspension over the segments \<open>S\<close>: the segments that start are in
  \<open>S\<close> with their predecessors, and every expression that is left has its current segments
  in \<open>S\<close> and is neither an \<^verbatim>\<open>AwaitExpression\<close> nor a \<^verbatim>\<open>YieldExpression\<close>.
\<close>

definition outdatedEmpty :: "segment_ref set \<Rightarrow> segment_info \<Rightarrow> bool" where
  "outdatedEmpty S info = (\<forall>s\<in>S. outdatedOf info s = {})"

fun withoutSuspension :: "world \<Rightarrow> segment_ref set \<Rightarrow> event \<Rightarrow> bool" where
  "withoutSuspension w S (CodePathSegmentStart segment) =
     (ident segment \<in> S \<and> set (prevSegments segment) \<subseteq> S)"
| "withoutSuspension w S (ExpressionExit node currentSegments) =
     (\<not> isSuspension w node \<and> set currentSegments \<subseteq> S)"
| "withoutSuspension w S e = True"

text \<open>
  The chain of member expressions above a node: each is the parent of the one before and
  has it as its \<^verbatim>\<open>object\<close>.
\<close>

fun memberChain :: "world \<Rightarrow> node_ref \<Rightarrow> node_ref list \<Rightarrow> bool" where
  "memberChain w node [] = True"
| "memberChain w node (p # ps) =
     (parent (ast w node) = Some p \<and> ntype (ast w p) = ''MemberExpression'' \<and>
      object (ast w p) = Some node \<and> memberChain w p ps)"

definition isObjectOf :: "world \<Rightarrow> node_ref \<Rightarrow> node_ref \<Rightarrow> bool" where
  "isObjectOf w node p = (ntype (ast w p) = ''MemberExpression'' \<and> object (ast w p) = Some node)"

definition isLeftOfAssignment :: "world \<Rightarrow> node_ref \<Rightarrow> node_ref \<Rightarrow> bool" where
  "isLeftOfAssignment w node p =
     (ntype (ast w p) = ''AssignmentExpression'' \<and> left (ast w p) = Some node)"

text \<open>A write expression whose parent has the operator \<^verbatim>\<open>=\<close>.\<close>

definition feedsPlainAssignment :: "world \<Rightarrow> node_ref option \<Rightarrow> bool" where
  "feedsPlainAssignment w we =
     (case we of
        None \<Rightarrow> False
      | Some e \<Rightarrow> (case parent (ast w e) of None \<Rightarrow> False | Some p \<Rightarrow> operator (ast w p) = Some ''=''))"

text \<open>Every dummy kept in \<^verbatim>\<open>dummyVariables\<close> has the global scope as its scope.\<close>

definition dummiesGlobal :: "world \<Rightarrow> rule_state \<Rightarrow> bool" where
  "dummiesGlobal w st = (\<forall>nm obj. dummyVariables st nm = Some obj \<longrightarrow> var_scope obj = globalScope w)"







definition mapR :: "('a \<Rightarrow> 'b) \<Rightarrow> 'a result \<Rightarrow> 'b result" where
  "mapR f m = bindR m (\<lambda>x. returns (f x))"

section \<open>Example programs\<close>

text \<open>An AST is written as the list of its nodes; every other reference is a root.\<close>

definition mkNode :: "string \<Rightarrow> node_ref option \<Rightarrow> ast_node" where
  "mkNode ty up = \<lparr>ntype = ty, parent = up, name = [], object = None, left = None, right = None,
     operator = None, async = False, generator = False\<rparr>"

definition mkAst :: "(node_ref \<times> ast_node) list \<Rightarrow> node_ref \<Rightarrow> ast_node" where
  "mkAst xs n = (case map_of xs n of Some x \<Rightarrow> x | None \<Rightarrow> mkNode ''Program'' None)"

text \<open>A segment store with one initialised segment, and a segment that joins two others.\<close>

definition ex_info :: segment_info where
  "ex_info = [0 \<mapsto> \<lparr>outdatedReadVariables = {Resolved 1}, freshReadVariables = {Dummy ''g''}\<rparr>]"

definition ex_join :: PathSegment where
  "ex_join = \<lparr>ident = 2, prevSegments = [0, 1]\<rparr>"

text \<open>
  \<^verbatim>\<open>async function f() { a.b = c; }\<close> with \<^verbatim>\<open>a\<close> and \<^verbatim>\<open>c\<close> unresolved; the operator and
  what \<^verbatim>\<open>getPropertyName\<close> returns for \<^verbatim>\<open>a.b\<close> vary.
\<close>

definition member_a :: reference where
  "member_a = \<lparr>ref_identifier = 6, resolved = None, from_scope = 1, isRead = True, writeExpr = None\<rparr>"

definition member_c :: reference where
  "member_c = \<lparr>ref_identifier = 8, resolved = None, from_scope = 1, isRead = True, writeExpr = None\<rparr>"

definition memberAssignment :: "string \<Rightarrow> string option \<Rightarrow> world" where
  "memberAssignment op prop =
     \<lparr>ast = mkAst
        [(0, mkNode ''Program'' None),
         (1, (mkNode ''FunctionDeclaration'' (Some 0))\<lparr>async := True\<rparr>),
         (2, mkNode ''BlockStatement'' (Some 1)),
         (3, mkNode ''ExpressionStatement'' (Some 2)),
         (4, (mkNode ''AssignmentExpression'' (Some 3))\<lparr>left := Some 5, right := Some 8,
               operator := Some op\<rparr>),
         (5, (mkNode ''MemberExpression'' (Some 4))\<lparr>object := Some 6\<rparr>),
         (6, (mkNode ''Identifier'' (Some 5))\<lparr>name := ''a''\<rparr>),
         (7, (mkNode ''Identifier'' (Some 5))\<lparr>name := ''b''\<rparr>),
         (8, (mkNode ''Identifier'' (Some 4))\<lparr>name := ''c''\<rparr>)],
      scopes = (\<lambda>s. if s = 1
                     then \<lparr>stype = ''function'', variableScope = 1,
                            references = [member_a, member_c], childScopes = [], block = 1\<rparr>
                     else \<lparr>stype = ''global'', variableScope = 0, references = [],
                            childScopes = [1], block = 0\<rparr>),
      variables = (\<lambda>v. \<lparr>var_name = [], var_scope = 0, var_references = []\<rparr>),
      getPropertyName = (\<lambda>n s. if n = 5 then prop else None),
      globalScope = 0\<rparr>"

text \<open>
  \<^verbatim>\<open>async function f() { x += c; } x;\<close> where the \<^verbatim>\<open>x\<close> of the function is resolved
  (a variable of the function) or not, and the other references are unresolved.
\<close>

definition simple_x :: "var_ref option \<Rightarrow> reference" where
  "simple_x res = \<lparr>ref_identifier = 5, resolved = res, from_scope = 1, isRead = True,
     writeExpr = Some 6\<rparr>"

definition simple_c :: reference where
  "simple_c = \<lparr>ref_identifier = 6, resolved = None, from_scope = 1, isRead = True, writeExpr = None\<rparr>"

text \<open>The reference to \<^verbatim>\<open>x\<close> at the top level.\<close>

definition elsewhere_x :: reference where
  "elsewhere_x = \<lparr>ref_identifier = 8, resolved = None, from_scope = 0, isRead = True,
     writeExpr = None\<rparr>"

definition simpleAssignment :: "var_ref option \<Rightarrow> world" where
  "simpleAssignment res =
     \<lparr>ast = mkAst
        [(0, mkNode ''Program'' None),
         (1, (mkNode ''FunctionDeclaration'' (Some 0))\<lparr>async := True\<rparr>),
         (2, mkNode ''BlockStatement'' (Some 1)),
         (3, mkNode ''ExpressionStatement'' (Some 2)),
         (4, (mkNode ''AssignmentExpression'' (Some 3))\<lparr>left := Some 5, right := Some 6,
               operator := Some ''+=''\<rparr>),
         (5, (mkNode ''Identifier'' (Some 4))\<lparr>name := ''x''\<rparr>),
         (6, (mkNode ''Identifier'' (Some 4))\<lparr>name := ''c''\<rparr>),
         (7, mkNode ''ExpressionStatement'' (Some 0)),
         (8, (mkNode ''Identifier'' (Some 7))\<lparr>name := ''x''\<rparr>)],
      scopes = (\<lambda>s. if s = 1
                     then \<lparr>stype = ''function'', variableScope = 1,
                            references = [simple_x res, simple_c], childScopes = [], block = 1\<rparr>
                     else \<lparr>stype = ''global'', variableScope = 0, references = [elsewhere_x],
                            childScopes = [1], block = 0\<rparr>),
      variables = (\<lambda>v. \<lparr>var_name = ''x'', var_scope = 1, var_references = [simple_x res]\<rparr>),
      getPropertyName = (\<lambda>n s. None),
      globalScope = 0\<rparr>"

text \<open>
  \<^verbatim>\<open>async function f() { x += await c; }\<close> where \<^verbatim>\<open>x\<close> is resolved (a variable of the
  function) or not, and \<^verbatim>\<open>c\<close> is unresolved.
\<close>

definition await_x :: "var_ref option \<Rightarrow> reference" where
  "await_x res = \<lparr>ref_identifier = 5, resolved = res, from_scope = 1, isRead = True,
     writeExpr = Some 6\<rparr>"

definition await_c :: reference where
  "await_c = \<lparr>ref_identifier = 7, resolved = None, from_scope = 1, isRead = True, writeExpr = None\<rparr>"

definition awaitAssignment :: "var_ref option \<Rightarrow> world" where
  "awaitAssignment res =
     \<lparr>ast = mkAst
        [(0, mkNode ''Program'' None),
         (1, (mkNode ''FunctionDeclaration'' (Some 0))\<lparr>async := True\<rparr>),
         (2, mkNode ''BlockStatement'' (Some 1)),
         (3, mkNode ''ExpressionStatement'' (Some 2)),
         (4, (mkNode ''AssignmentExpression'' (Some 3))\<lparr>left := Some 5, right := Some 6,
               operator := Some ''+=''\<rparr>),
         (5, (mkNode ''Identifier'' (Some 4))\<lparr>name := ''x''\<rparr>),
         (6, mkNode ''AwaitExpression'' (Some 4)),
         (7, (mkNode ''Identifier'' (Some 6))\<lparr>name := ''c''\<rparr>)],
      scopes = (\<lambda>s. if s = 1
                     then \<lparr>stype = ''function'', variableScope = 1,
                            references = [await_x res, await_c], childScopes = [], block = 1\<rparr>
                     else \<lparr>stype = ''global'', variableScope = 0, references = [],
                            childScopes = [1], block = 0\<rparr>),
      variables = (\<lambda>v. \<lparr>var_name = ''x'', var_scope = 1, var_references = [await_x res]\<rparr>),
      getPropertyName = (\<lambda>n s. None),
      globalScope = 0\<rparr>"

text \<open>The traversal of the function of that program.\<close>

definition awaitTraversal :: "event list" where
  "awaitTraversal =
     [CodePathStart 0 1, CodePathSegmentStart \<lparr>ident = 0, prevSegments = []\<rparr>,
      IdentifierEnter 5 [0], IdentifierEnter 7 [0], ExpressionExit 7 [0],
      ExpressionExit 6 [0], ExpressionExit 4 [0], CodePathEnd]"

text \<open>
  \<^verbatim>\<open>async function outer() { x = async () => { x; await y; }; }\<close> with \<^verbatim>\<open>x\<close> and \<^verbatim>\<open>y\<close>
  unresolved.
\<close>

definition nested_x_write :: reference where
  "nested_x_write = \<lparr>ref_identifier = 5, resolved = None, from_scope = 1, isRead = False,
     writeExpr = Some 6\<rparr>"

definition nested_x_read :: reference where
  "nested_x_read = \<lparr>ref_identifier = 9, resolved = None, from_scope = 2, isRead = True,
     writeExpr = None\<rparr>"

definition nested_y :: reference where
  "nested_y = \<lparr>ref_identifier = 12, resolved = None, from_scope = 2, isRead = True,
     writeExpr = None\<rparr>"

definition nestedFunction :: world where
  "nestedFunction =
     \<lparr>ast = mkAst
        [(0, mkNode ''Program'' None),
         (1, (mkNode ''FunctionDeclaration'' (Some 0))\<lparr>async := True\<rparr>),
         (2, mkNode ''BlockStatement'' (Some 1)),
         (3, mkNode ''ExpressionStatement'' (Some 2)),
         (4, (mkNode ''AssignmentExpression'' (Some 3))\<lparr>left := Some 5, right := Some 6,
               operator := Some ''=''\<rparr>),
         (5, (mkNode ''Identifier'' (Some 4))\<lparr>name := ''x''\<rparr>),
         (6, (mkNode ''ArrowFunctionExpression'' (Some 4))\<lparr>async := True\<rparr>),
         (7, mkNode ''BlockStatement'' (Some 6)),
         (8, mkNode ''ExpressionStatement'' (Some 7)),
         (9, (mkNode ''Identifier'' (Some 8))\<lparr>name := ''x''\<rparr>),
         (10, mkNode ''ExpressionStatement'' (Some 7)),
         (11, mkNode ''AwaitExpression'' (Some 10)),
         (12, (mkNode ''Identifier'' (Some 11))\<lparr>name := ''y''\<rparr>)],
      scopes = (\<lambda>s. if s = 1
                     then \<lparr>stype = ''function'', variableScope = 1,
                            references = [nested_x_write], childScopes = [2], block = 1\<rparr>
                     else if s = 2
                     then \<lparr>stype = ''function'', variableScope = 2,
                            references = [nested_x_read, nested_y], childScopes = [], block = 6\<rparr>
                     else \<lparr>stype = ''global'', variableScope = 0, references = [],
                            childScopes = [1], block = 0\<rparr>),
      variables = (\<lambda>v. \<lparr>var_name = [], var_scope = 0, var_references = []\<rparr>),
      getPropertyName = (\<lambda>n s. None),
      globalScope = 0\<rparr>"

text \<open>
  The traversal of \<^verbatim>\<open>outer\<close>: the listeners of a function node run
  before \<^verbatim>\<open>onCodePathEnd\<close>, so the arrow function is left while its own frame is on top.
\<close>

definition nestedTraversal :: "event list" where
  "nestedTraversal =
     [CodePathStart 0 1, CodePathSegmentStart \<lparr>ident = 0, prevSegments = []\<rparr>,
      IdentifierEnter 5 [0],
      CodePathStart 1 2, CodePathSegmentStart \<lparr>ident = 1, prevSegments = []\<rparr>,
      IdentifierEnter 9 [1], ExpressionExit 9 [1],
      IdentifierEnter 12 [1], ExpressionExit 12 [1], ExpressionExit 11 [1],
      ExpressionExit 6 [1], CodePathEnd,
      ExpressionExit 4 [0], CodePathEnd]"






text \<open>The state when the traversal has entered the function and its first segment.\<close>

definition entered :: "world \<Rightarrow> rule_state" where
  "entered w =
     (case run w create [CodePathStart 0 1, CodePathSegmentStart \<lparr>ident = 0, prevSegments = []\<rparr>] of
        Some (Inr st) \<Rightarrow> st
      | _ \<Rightarrow> create)"

section \<open>Results of computations\<close>

lemma bindR_simps [simp]:
  "bindR None f = None"
  "bindR (Some (Inl e)) f = Some (Inl e)"
  "bindR (Some (Inr v)) f = f v"
  by (simp_all add: bindR_def)

lemma bindR_returns_iff:
  "bindR m f = Some (Inr y) \<longleftrightarrow> (\<exists>x. m = Some (Inr x) \<and> f x = Some (Inr y))"
  by (auto simp: bindR_def split: option.splits sum.splits)

declare returns_def [simp] throws_def [simp]

section \<open>The operations of \<^verbatim>\<open>SegmentInfo\<close>, segment by segment\<close>

lemma makeOutdated_segment_apply:
  "makeOutdated_segment x info s = (if s = x then map_option promote (info s) else info s)"
  by (simp add: makeOutdated_segment_def promote_def split: option.splits)

lemma promote_idem: "promote (promote i) = promote i"
  by (simp add: promote_def)

lemma makeOutdated_apply:
  "makeOutdated info segments s =
     (if s \<in> set segments then map_option promote (info s) else info s)"
proof (induction segments arbitrary: info)
  case Nil
  show ?case by (simp add: makeOutdated_def)
next
  case (Cons x xs)
  have "makeOutdated info (x # xs) s = makeOutdated (makeOutdated_segment x info) xs s"
    by (simp add: makeOutdated_def)
  also have "\<dots> = (if s \<in> set xs then map_option promote (makeOutdated_segment x info s)
                    else makeOutdated_segment x info s)"
    by (rule Cons.IH)
  also have "\<dots> = (if s \<in> set (x # xs) then map_option promote (info s) else info s)"
    by (cases "info s") (auto simp: makeOutdated_segment_apply promote_idem)
  finally show ?case .
qed

lemma markAsRead_segment_apply:
  "markAsRead_segment v x info s = (if s = x then map_option (addFresh v) (info s) else info s)"
  by (simp add: markAsRead_segment_def addFresh_def split: option.splits)

lemma addFresh_idem: "addFresh v (addFresh v i) = addFresh v i"
  by (simp add: addFresh_def)

lemma markAsRead_apply:
  "markAsRead info segments v s =
     (if s \<in> set segments then map_option (addFresh v) (info s) else info s)"
proof (induction segments arbitrary: info)
  case Nil
  show ?case by (simp add: markAsRead_def)
next
  case (Cons x xs)
  have "markAsRead info (x # xs) v s = markAsRead (markAsRead_segment v x info) xs v s"
    by (simp add: markAsRead_def)
  also have "\<dots> = (if s \<in> set xs then map_option (addFresh v) (markAsRead_segment v x info s)
                    else markAsRead_segment v x info s)"
    by (rule Cons.IH)
  also have "\<dots> = (if s \<in> set (x # xs) then map_option (addFresh v) (info s) else info s)"
    by (cases "info s") (auto simp: markAsRead_segment_apply addFresh_idem)
  finally show ?case .
qed

lemma initialize_prev_apply:
  "initialize_prev info p acc =
     \<lparr>outdatedReadVariables = outdatedReadVariables acc \<union> outdatedOf info p,
      freshReadVariables = freshReadVariables acc \<union> freshOf info p\<rparr>"
  by (cases "info p") (simp_all add: initialize_prev_def outdatedOf_def freshOf_def)

lemma fold_initialize_prev:
  "fold (initialize_prev info) ps acc =
     \<lparr>outdatedReadVariables = outdatedReadVariables acc \<union> (\<Union>p\<in>set ps. outdatedOf info p),
      freshReadVariables = freshReadVariables acc \<union> (\<Union>p\<in>set ps. freshOf info p)\<rparr>"
proof (induction ps arbitrary: acc)
  case Nil
  show ?case by simp
next
  case (Cons p ps)
  have "fold (initialize_prev info) (p # ps) acc =
          fold (initialize_prev info) ps (initialize_prev info p acc)"
    by simp
  also have "\<dots> =
      \<lparr>outdatedReadVariables = outdatedReadVariables (initialize_prev info p acc) \<union>
         (\<Union>q\<in>set ps. outdatedOf info q),
       freshReadVariables = freshReadVariables (initialize_prev info p acc) \<union>
         (\<Union>q\<in>set ps. freshOf info q)\<rparr>"
    by (rule Cons.IH)
  also have "\<dots> =
      \<lparr>outdatedReadVariables = outdatedReadVariables acc \<union>
         (\<Union>q\<in>set (p # ps). outdatedOf info q),
       freshReadVariables = freshReadVariables acc \<union>
         (\<Union>q\<in>set (p # ps). freshOf info q)\<rparr>"
    by (simp add: initialize_prev_apply Un_assoc)
  finally show ?case .
qed

lemma initialize_apply:
  "initialize info segment s =
     (if s = ident segment
      then Some \<lparr>outdatedReadVariables = (\<Union>p\<in>set (prevSegments segment). outdatedOf info p),
                 freshReadVariables = (\<Union>p\<in>set (prevSegments segment). freshOf info p)\<rparr>
      else info s)"
  by (simp add: initialize_def fold_initialize_prev)

lemma isOutdated_iff:
  "isOutdated info segments v \<longleftrightarrow> (\<exists>s\<in>set segments. v \<in> outdatedOf info s)"
  by (induction segments) (auto simp: outdatedOf_def split: option.splits)

lemma outdatedOf_markAsRead: "outdatedOf (markAsRead info segs v) s = outdatedOf info s"
  by (cases "info s") (simp_all add: outdatedOf_def markAsRead_apply addFresh_def)

lemma outdatedOf_makeOutdated:
  "outdatedOf (makeOutdated info segs) s =
     (if s \<in> set segs then outdatedOf info s \<union> freshOf info s else outdatedOf info s)"
  by (cases "info s") (simp_all add: outdatedOf_def freshOf_def makeOutdated_apply promote_def)

lemma outdatedOf_initialize:
  "outdatedOf (initialize info segment) s =
     (if s = ident segment then (\<Union>p\<in>set (prevSegments segment). outdatedOf info p)
      else outdatedOf info s)"
  by (simp add: outdatedOf_def initialize_apply)

section \<open>What the handlers leave unchanged\<close>

lemma getVariable_frame:
  "getVariable w st r = ((v, obj), st1) \<Longrightarrow>
     segmentInfo st1 = segmentInfo st \<and> stack st1 = stack st \<and>
     assignmentReferences st1 = assignmentReferences st \<and> reports st1 = reports st"
  by (auto simp: getVariable_def Let_def split: option.splits)

lemma verify_frame:
  "verify w st node segs refs = Some (Inr st') \<Longrightarrow>
     segmentInfo st' = segmentInfo st \<and> stack st' = stack st \<and>
     assignmentReferences st' = assignmentReferences st"
proof (induction refs arbitrary: st)
  case Nil
  then show ?case by simp
next
  case (Cons r refs)
  obtain v obj st1 where g: "getVariable w st r = ((v, obj), st1)"
    by (metis surj_pair)
  note f = getVariable_frame [OF g]
  show ?case
  proof (cases "isOutdated (segmentInfo st1) segs v")
    case True
    with Cons.prems g obtain p where p: "parent (ast w node) = Some p"
      and v: "verify w (st1\<lparr>reports := reports st1 @
                 [\<lparr>report_node = p, messageId = ''nonAtomicUpdate'',
                   data_value = left (ast w p)\<rparr>]\<rparr>) node segs refs = Some (Inr st')"
      by (auto split: option.splits)
    from Cons.IH [OF v] f show ?thesis by simp
  next
    case False
    with Cons.prems g have "verify w st1 node segs refs = Some (Inr st')"
      by simp
    from Cons.IH [OF this] f show ?thesis by simp
  qed
qed

lemma verify_no_report:
  assumes "\<And>v. \<not> isOutdated (segmentInfo st) segs v"
    and "verify w st node segs refs = Some (Inr st')"
  shows "reports st' = reports st"
  using assms
proof (induction refs arbitrary: st)
  case Nil
  then show ?case by simp
next
  case (Cons r refs)
  obtain v obj st1 where g: "getVariable w st r = ((v, obj), st1)"
    by (metis surj_pair)
  note f = getVariable_frame [OF g]
  from f Cons.prems(1) have n: "\<And>v. \<not> isOutdated (segmentInfo st1) segs v"
    by simp
  with Cons.prems(2) g have "verify w st1 node segs refs = Some (Inr st')"
    by simp
  from Cons.IH [OF n this] f show ?case by simp
qed

lemma addFreshRead_frame:
  "addFreshRead w st r we v segs = Some (Inr st') \<Longrightarrow>
     (segmentInfo st' = segmentInfo st \<or> segmentInfo st' = markAsRead (segmentInfo st) segs v) \<and>
     stack st' = stack st \<and> assignmentReferences st' = assignmentReferences st \<and>
     reports st' = reports st \<and> dummyVariables st' = dummyVariables st"
  by (auto simp: addFreshRead_def Let_def split: if_splits option.splits)

lemma registerAssignment_frame:
  "registerAssignment w st r we obj n = Some (Inr st') \<Longrightarrow>
     segmentInfo st' = segmentInfo st \<and> stack st' = stack st \<and> reports st' = reports st \<and>
     dummyVariables st' = dummyVariables st"
  by (auto simp: registerAssignment_def bindR_returns_iff split: if_splits option.splits)

lemma Identifier_frame:
  assumes "Identifier w st node segs = Some (Inr st')"
  shows "(segmentInfo st' = segmentInfo st \<or>
          (\<exists>v. segmentInfo st' = markAsRead (segmentInfo st) segs v)) \<and>
         stack st' = stack st \<and> reports st' = reports st"
proof (cases "stack st")
  case Nil
  with assms show ?thesis by (simp add: Identifier_def)
next
  case (Cons fr upper)
  show ?thesis
  proof (cases "referenceMap fr")
    case None
    with assms Cons show ?thesis by (simp add: Identifier_def)
  next
    case (Some m)
    show ?thesis
    proof (cases "m node")
      case None
      with assms Cons Some show ?thesis by (simp add: Identifier_def)
    next
      case r: (Some reference)
      obtain v obj st1 where g: "getVariable w st reference = ((v, obj), st1)"
        by (metis surj_pair)
      from assms Cons Some r g obtain n we st2
        where a: "addFreshRead w st1 reference we v segs = Some (Inr st2)"
          and b: "registerAssignment w st2 reference we obj n = Some (Inr st')"
        by (auto simp: Identifier_def bindR_returns_iff)
      from getVariable_frame [OF g] addFreshRead_frame [OF a] registerAssignment_frame [OF b]
      show ?thesis by auto
    qed
  qed
qed

lemma expression_exit_frame:
  assumes "expression_exit w st node segs = Some (Inr st')"
  shows "(segmentInfo st' = segmentInfo st \<or>
          (isSuspension w node \<and> segmentInfo st' = makeOutdated (segmentInfo st) segs)) \<and>
         stack st' = stack st"
proof (cases "stack st")
  case Nil
  with assms show ?thesis by (simp add: expression_exit_def)
next
  case (Cons fr upper)
  show ?thesis
  proof (cases "referenceMap fr")
    case None
    with assms Cons show ?thesis by (simp add: expression_exit_def)
  next
    case (Some m)
    define st1 where "st1 = (if isSuspension w node
                           then st\<lparr>segmentInfo := makeOutdated (segmentInfo st) segs\<rparr>
                           else st)"
    have s1: "(segmentInfo st1 = segmentInfo st \<or>
          (isSuspension w node \<and> segmentInfo st1 = makeOutdated (segmentInfo st) segs)) \<and>
         stack st1 = stack st"
      by (simp add: st1_def)
    show ?thesis
    proof (cases "assignmentReferences st1 node")
      case None
      with assms Cons Some have "st' = st1"
        by (simp add: expression_exit_def st1_def Let_def)
      with s1 show ?thesis by simp
    next
      case r: (Some refs)
      with assms Cons Some
      have "verify w (st1\<lparr>assignmentReferences := (assignmentReferences st1)(node := None)\<rparr>)
              node segs refs = Some (Inr st')"
        by (simp add: expression_exit_def st1_def Let_def)
      from verify_frame [OF this] s1 show ?thesis by simp
    qed
  qed
qed

lemma onCodePathStart_frame:
  "onCodePathStart w st cp sc = Some (Inr st') \<Longrightarrow>
     segmentInfo st' = segmentInfo st \<and> reports st' = reports st \<and>
     dummyVariables st' = dummyVariables st \<and> assignmentReferences st' = assignmentReferences st"
  by (auto simp: onCodePathStart_def Let_def split: if_splits option.splits)

lemma onCodePathEnd_frame:
  "onCodePathEnd st = Some (Inr st') \<Longrightarrow>
     segmentInfo st' = segmentInfo st \<and> reports st' = reports st \<and>
     dummyVariables st' = dummyVariables st \<and> assignmentReferences st' = assignmentReferences st"
  by (auto simp: onCodePathEnd_def split: list.splits)

lemma expression_exit_no_report:
  assumes "\<not> isSuspension w node" and "\<And>v. \<not> isOutdated (segmentInfo st) segs v"
    and "expression_exit w st node segs = Some (Inr st')"
  shows "reports st' = reports st"
proof (cases "stack st")
  case Nil
  with assms show ?thesis by (simp add: expression_exit_def)
next
  case (Cons fr upper)
  show ?thesis
  proof (cases "referenceMap fr")
    case None
    with assms Cons show ?thesis by (simp add: expression_exit_def)
  next
    case (Some m)
    show ?thesis
    proof (cases "assignmentReferences st node")
      case None
      with assms Cons Some show ?thesis
        by (simp add: expression_exit_def Let_def)
    next
      case r: (Some refs)
      with assms Cons Some
      have v: "verify w (st\<lparr>assignmentReferences := (assignmentReferences st)(node := None)\<rparr>)
              node segs refs = Some (Inr st')"
        by (simp add: expression_exit_def Let_def)
      have "reports st' = reports (st\<lparr>assignmentReferences := (assignmentReferences st)(node := None)\<rparr>)"
        by (rule verify_no_report [OF _ v]) (simp add: assms(2))
      then show ?thesis by simp
    qed
  qed
qed

lemma step_without_suspension:
  assumes inv: "outdatedEmpty S (segmentInfo st)"
    and ok: "withoutSuspension w S e"
    and st: "step w st e = Some (Inr st')"
  shows "outdatedEmpty S (segmentInfo st') \<and> reports st' = reports st"
proof (cases e)
  case (CodePathStart cp sc)
  with st inv onCodePathStart_frame [of w st cp sc st'] show ?thesis by simp
next
  case CodePathEnd
  with st inv onCodePathEnd_frame [of st st'] show ?thesis by simp
next
  case (CodePathSegmentStart segment)
  with st have "st' = st\<lparr>segmentInfo := initialize (segmentInfo st) segment\<rparr>"
    by (auto simp: onCodePathSegmentStart_def)
  with inv ok CodePathSegmentStart show ?thesis
    by (auto simp: outdatedEmpty_def outdatedOf_initialize)
next
  case (IdentifierEnter node segs)
  with st have "Identifier w st node segs = Some (Inr st')" by simp
  from Identifier_frame [OF this] inv show ?thesis
    by (auto simp: outdatedEmpty_def outdatedOf_markAsRead)
next
  case (ExpressionExit node segs)
  with st have x: "expression_exit w st node segs = Some (Inr st')" by simp
  from ok ExpressionExit have ns: "\<not> isSuspension w node" and sub: "set segs \<subseteq> S"
    by simp_all
  from inv sub have no: "\<And>v. \<not> isOutdated (segmentInfo st) segs v"
    by (auto simp: isOutdated_iff outdatedEmpty_def)
  from expression_exit_frame [OF x] ns inv expression_exit_no_report [OF ns no x]
  show ?thesis by auto
qed

section \<open>The loops over the parent chain\<close>

lemma createReferenceMap_leaf:
  "childScopes (scopes w s) = [] \<Longrightarrow>
     createReferenceMap w s out =
       Some (fold (\<lambda>reference m. m(ref_identifier reference \<mapsto> reference))
               (references (scopes w s)) out)"
  by (subst createReferenceMap.simps) simp

lemma forEach_skip:
  "\<forall>x\<in>set xs. \<not> P x \<Longrightarrow> forEach (\<lambda>x s. if P x then f x s else Some s) xs s = Some s"
  by (induction xs) simp_all

lemma createReferenceMap_functions:
  assumes "\<forall>c\<in>set (childScopes (scopes w s)). stype (scopes w c) = ''function''"
  shows "createReferenceMap w s out =
       Some (fold (\<lambda>reference m. m(ref_identifier reference \<mapsto> reference))
               (references (scopes w s)) out)"
proof -
  from assms have "\<forall>c\<in>set (childScopes (scopes w s)). \<not> stype (scopes w c) \<noteq> ''function''"
    by simp
  from forEach_skip [where P = "\<lambda>c. stype (scopes w c) \<noteq> ''function''"
      and f = "createReferenceMap w", OF this]
  show ?thesis
    by (subst createReferenceMap.simps) blast
qed

lemma getReferenceName_loop_chain:
  assumes "memberChain w node ps" and "parent (ast w (last (node # ps))) = Some q"
    and "\<not> isObjectOf w (last (node # ps)) q"
  shows "getReferenceName_loop w r node names =
           Some (Inr (names @ map (\<lambda>p. propertyNameOrStar w p (from_scope r)) ps))"
  using assms
proof (induction ps arbitrary: node names)
  case Nil
  then show ?case
    by (subst getReferenceName_loop.simps) (auto simp: isObjectOf_def)
next
  case (Cons p ps)
  from Cons.prems have c: "memberChain w p ps" and l: "parent (ast w (last (p # ps))) = Some q"
    and e: "\<not> isObjectOf w (last (p # ps)) q"
    by simp_all
  have "getReferenceName_loop w r node names =
          getReferenceName_loop w r p (names @ [propertyNameOrStar w p (from_scope r)])"
    using Cons.prems(1) by (subst getReferenceName_loop.simps) simp
  also have "\<dots> = Some (Inr ((names @ [propertyNameOrStar w p (from_scope r)]) @
                map (\<lambda>p. propertyNameOrStar w p (from_scope r)) ps))"
    by (rule Cons.IH [OF c l e])
  finally show ?case by simp
qed

lemma getWriteExpr_loop_chain:
  assumes "memberChain w node ps" and "parent (ast w (last (node # ps))) = Some q"
    and "\<not> isObjectOf w (last (node # ps)) q"
  shows "getWriteExpr_loop w node =
           Some (Inr (if isLeftOfAssignment w (last (node # ps)) q then right (ast w q) else None))"
  using assms
proof (induction ps arbitrary: node)
  case Nil
  then show ?case
    by (subst getWriteExpr_loop.simps) (auto simp: isObjectOf_def isLeftOfAssignment_def)
next
  case (Cons p ps)
  from Cons.prems have c: "memberChain w p ps" and l: "parent (ast w (last (p # ps))) = Some q"
    and e: "\<not> isObjectOf w (last (p # ps)) q"
    by simp_all
  have "getWriteExpr_loop w node = getWriteExpr_loop w p"
    using Cons.prems(1) by (subst getWriteExpr_loop.simps) simp
  also note Cons.IH [OF c l e]
  finally show ?case by simp
qed

text \<open>With a well-founded parent relation both loops end.\<close>

lemma getReferenceName_loop_ends:
  assumes "wf {(p, n). parent (ast w n) = Some p}"
  shows "\<exists>y. getReferenceName_loop w r node names = Some y"
  using assms
proof (induction node arbitrary: names rule: wf_induct_rule)
  case (less node)
  show ?case
  proof (cases "parent (ast w node)")
    case None
    then show ?thesis by (subst getReferenceName_loop.simps) simp
  next
    case (Some p)
    show ?thesis
    proof (cases "isObjectOf w node p")
      case True
      from Some have "(p, node) \<in> {(p, n). parent (ast w n) = Some p}" by simp
      from less.IH [OF this less.prems]
      obtain y where "getReferenceName_loop w r p
          (names @ [propertyNameOrStar w p (from_scope r)]) = Some y"
        by blast
      with Some True show ?thesis
        by (subst getReferenceName_loop.simps) (simp add: isObjectOf_def)
    next
      case False
      with Some show ?thesis
        by (subst getReferenceName_loop.simps) (auto simp: isObjectOf_def)
    qed
  qed
qed

lemma getWriteExpr_loop_ends:
  assumes "wf {(p, n). parent (ast w n) = Some p}"
  shows "\<exists>y. getWriteExpr_loop w node = Some y"
  using assms
proof (induction node rule: wf_induct_rule)
  case (less node)
  show ?case
  proof (cases "parent (ast w node)")
    case None
    then show ?thesis by (subst getWriteExpr_loop.simps) simp
  next
    case (Some p)
    show ?thesis
    proof (cases "\<not> isLeftOfAssignment w node p \<and> isObjectOf w node p")
      case True
      from Some have "(p, node) \<in> {(p, n). parent (ast w n) = Some p}" by simp
      from less.IH [OF this less.prems]
      obtain y where "getWriteExpr_loop w p = Some y"
        by blast
      with Some True show ?thesis
        by (subst getWriteExpr_loop.simps) (simp add: isObjectOf_def isLeftOfAssignment_def)
    next
      case False
      with Some show ?thesis
        by (subst getWriteExpr_loop.simps) (auto simp add: isObjectOf_def isLeftOfAssignment_def)
    qed
  qed
qed

text \<open>
  So \<^verbatim>\<open>getReferenceName\<close> and \<^verbatim>\<open>getWriteExpr\<close> return or throw on every AST, and every
  node has a chain of member expressions that ends at a root or at a parent of which it is
  not the \<^verbatim>\<open>object\<close>.
\<close>

lemma memberChain_exists:
  assumes "wf {(p, n). parent (ast w n) = Some p}"
  shows "\<exists>ps. memberChain w node ps \<and>
           (parent (ast w (last (node # ps))) = None \<or>
            (\<exists>q. parent (ast w (last (node # ps))) = Some q \<and>
                 \<not> isObjectOf w (last (node # ps)) q))"
  using assms
proof (induction node rule: wf_induct_rule)
  case (less node)
  show ?case
  proof (cases "parent (ast w node)")
    case None
    then have "memberChain w node [] \<and> parent (ast w (last (node # []))) = None"
      by simp
    then show ?thesis by blast
  next
    case (Some p)
    show ?thesis
    proof (cases "isObjectOf w node p")
      case True
      from Some have "(p, node) \<in> {(p, n). parent (ast w n) = Some p}" by simp
      from less.IH [OF this less.prems] obtain ps
        where c: "memberChain w p ps"
          and e: "parent (ast w (last (p # ps))) = None \<or>
            (\<exists>q. parent (ast w (last (p # ps))) = Some q \<and> \<not> isObjectOf w (last (p # ps)) q)"
        by blast
      from c Some True have "memberChain w node (p # ps)"
        by (simp add: isObjectOf_def)
      moreover have "last (node # p # ps) = last (p # ps)"
        by simp
      ultimately show ?thesis
        using e by metis
    next
      case False
      with Some have "memberChain w node [] \<and> parent (ast w (last (node # []))) = Some p \<and>
          \<not> isObjectOf w (last (node # [])) p"
        by simp
      then show ?thesis by blast
    qed
  qed
qed

lemma getReferenceName_ends:
  assumes "wf {(p, n). parent (ast w n) = Some p}"
  shows "getReferenceName w r \<noteq> None"
proof -
  from getReferenceName_loop_ends [OF assms]
  obtain y where "getReferenceName_loop w r (ref_identifier r)
      [name (ast w (ref_identifier r))] = Some y"
    by blast
  then show ?thesis
    by (cases y) (simp_all add: getReferenceName_def)
qed

lemma getWriteExpr_ends:
  assumes "wf {(p, n). parent (ast w n) = Some p}"
  shows "getWriteExpr w r \<noteq> None"
proof (cases "writeExpr r")
  case None
  with getWriteExpr_loop_ends [OF assms, of "ref_identifier r"] show ?thesis
    by (auto simp: getWriteExpr_def)
next
  case (Some e)
  then show ?thesis by (simp add: getWriteExpr_def)
qed

lemma filterByName_returns:
  "filterByName w n refs = Some (Inr kept) \<Longrightarrow>
     kept = filter (\<lambda>r. getReferenceName w r = Some (Inr n)) refs"
proof (induction refs arbitrary: kept)
  case Nil
  then show ?case by simp
next
  case (Cons r refs)
  from Cons.prems obtain m kept' where m: "getReferenceName w r = Some (Inr m)"
    and k: "filterByName w n refs = Some (Inr kept')"
    and e: "kept = (if m = n then r # kept' else kept')"
    by (auto simp: bindR_returns_iff)
  from Cons.IH [OF k] m e show ?case by auto
qed

lemma isLocalVariableWithoutEscape_returns:
  assumes "isLocalVariableWithoutEscape w obj n = Some (Inr b)"
  shows "b \<longleftrightarrow> (\<forall>r\<in>set (var_references obj). getReferenceName w r = Some (Inr n) \<longrightarrow>
           variableScope (scopes w (from_scope r)) = variableScope (scopes w (var_scope obj)))"
proof -
  from assms obtain kept where k: "filterByName w n (var_references obj) = Some (Inr kept)"
    and b: "b = list_all (\<lambda>r. variableScope (scopes w (from_scope r)) =
                 variableScope (scopes w (var_scope obj))) kept"
    by (auto simp: isLocalVariableWithoutEscape_def Let_def bindR_returns_iff)
  from filterByName_returns [OF k] b show ?thesis
    by (auto simp: list_all_iff)
qed

section \<open>Pending lists and reports\<close>








section \<open>Dummies of reachable states\<close>

lemma getVariable_dummiesGlobal:
  assumes "dummiesGlobal w st" and "getVariable w st r = ((v, obj), st1)"
  shows "dummiesGlobal w st1"
  using assms
  by (cases "resolved r"; cases "dummyVariables st (name (ast w (ref_identifier r)))")
    (auto simp: getVariable_def dummiesGlobal_def Let_def split: if_splits)

lemma getVariable_unresolved:
  assumes "dummiesGlobal w st" and "resolved r = None" and "getVariable w st r = ((v, obj), st1)"
  shows "v = Dummy (name (ast w (ref_identifier r))) \<and> var_scope obj = globalScope w \<and>
         var_references obj \<noteq> [] \<and> last (var_references obj) = r \<and>
         dummyVariables st1 (name (ast w (ref_identifier r))) = Some obj"
  using assms
  by (cases "dummyVariables st (name (ast w (ref_identifier r)))")
    (auto simp: getVariable_def dummiesGlobal_def Let_def)

lemma verify_dummiesGlobal:
  "dummiesGlobal w st \<Longrightarrow> verify w st node segs refs = Some (Inr st') \<Longrightarrow> dummiesGlobal w st'"
proof (induction refs arbitrary: st)
  case Nil
  then show ?case by simp
next
  case (Cons r refs)
  obtain v obj st1 where g: "getVariable w st r = ((v, obj), st1)"
    by (metis surj_pair)
  note d = getVariable_dummiesGlobal [OF Cons.prems(1) g]
  show ?case
  proof (cases "isOutdated (segmentInfo st1) segs v")
    case True
    with Cons.prems g obtain p where p: "parent (ast w node) = Some p"
      and v: "verify w (st1\<lparr>reports := reports st1 @
                 [\<lparr>report_node = p, messageId = ''nonAtomicUpdate'',
                   data_value = left (ast w p)\<rparr>]\<rparr>) node segs refs = Some (Inr st')"
      by (auto split: option.splits)
    from d have "dummiesGlobal w (st1\<lparr>reports := reports st1 @
                 [\<lparr>report_node = p, messageId = ''nonAtomicUpdate'',
                   data_value = left (ast w p)\<rparr>]\<rparr>)"
      by (simp add: dummiesGlobal_def)
    from Cons.IH [OF this v] show ?thesis .
  next
    case False
    with Cons.prems g have "verify w st1 node segs refs = Some (Inr st')"
      by simp
    from Cons.IH [OF d this] show ?thesis .
  qed
qed

lemma step_dummiesGlobal:
  assumes "dummiesGlobal w st" and "step w st e = Some (Inr st')"
  shows "dummiesGlobal w st'"
proof (cases e)
  case (CodePathStart cp sc)
  with assms onCodePathStart_frame [of w st cp sc st'] show ?thesis
    by (simp add: dummiesGlobal_def)
next
  case CodePathEnd
  with assms onCodePathEnd_frame [of st st'] show ?thesis
    by (simp add: dummiesGlobal_def)
next
  case (CodePathSegmentStart segment)
  with assms show ?thesis
    by (auto simp: onCodePathSegmentStart_def dummiesGlobal_def)
next
  case (IdentifierEnter node segs)
  with assms have i: "Identifier w st node segs = Some (Inr st')" by simp
  show ?thesis
  proof (cases "\<exists>fr upper m reference. stack st = fr # upper \<and> referenceMap fr = Some m \<and>
                  m node = Some reference")
    case True
    then obtain fr upper m reference where f: "stack st = fr # upper" "referenceMap fr = Some m"
      "m node = Some reference"
      by blast
    obtain v obj st1 where g: "getVariable w st reference = ((v, obj), st1)"
      by (metis surj_pair)
    from i f g obtain n we st2
      where a: "addFreshRead w st1 reference we v segs = Some (Inr st2)"
        and b: "registerAssignment w st2 reference we obj n = Some (Inr st')"
      by (auto simp: Identifier_def bindR_returns_iff)
    from getVariable_dummiesGlobal [OF assms(1) g] addFreshRead_frame [OF a]
      registerAssignment_frame [OF b]
    show ?thesis by (simp add: dummiesGlobal_def)
  next
    case False
    with i have "st' = st"
      by (auto simp: Identifier_def split: list.splits option.splits)
    with assms show ?thesis by simp
  qed
next
  case (ExpressionExit node segs)
  with assms have x: "expression_exit w st node segs = Some (Inr st')" by simp
  define st1 where "st1 = (if isSuspension w node
                           then st\<lparr>segmentInfo := makeOutdated (segmentInfo st) segs\<rparr>
                           else st)"
  have d1: "dummiesGlobal w st1"
    using assms(1) by (simp add: st1_def dummiesGlobal_def)
  show ?thesis
  proof (cases "\<exists>fr upper m refs. stack st = fr # upper \<and> referenceMap fr = Some m \<and>
                  assignmentReferences st1 node = Some refs")
    case True
    then obtain fr upper m refs where f: "stack st = fr # upper" "referenceMap fr = Some m"
      "assignmentReferences st1 node = Some refs"
      by blast
    with x have v: "verify w (st1\<lparr>assignmentReferences := (assignmentReferences st1)(node := None)\<rparr>)
              node segs refs = Some (Inr st')"
      by (simp add: expression_exit_def st1_def Let_def)
    from d1 have "dummiesGlobal w (st1\<lparr>assignmentReferences := (assignmentReferences st1)(node := None)\<rparr>)"
      by (simp add: dummiesGlobal_def)
    from verify_dummiesGlobal [OF this v] show ?thesis .
  next
    case False
    with x have "st' = st \<or> st' = st1"
      by (auto simp: expression_exit_def st1_def Let_def split: list.splits option.splits)
    with assms(1) d1 show ?thesis by auto
  qed
qed

lemma run_dummiesGlobal:
  "dummiesGlobal w st \<Longrightarrow> run w st evs = Some (Inr st') \<Longrightarrow> dummiesGlobal w st'"
proof (induction evs arbitrary: st)
  case Nil
  then show ?case by simp
next
  case (Cons e evs)
  from Cons.prems(2) obtain st1 where s: "step w st e = Some (Inr st1)"
    and r: "run w st1 evs = Some (Inr st')"
    by (auto simp: bindR_returns_iff)
  from Cons.IH [OF step_dummiesGlobal [OF Cons.prems(1) s] r] show ?case .
qed

lemma reachable_dummiesGlobal:
  "run w create evs = Some (Inr st) \<Longrightarrow> dummiesGlobal w st"
  by (rule run_dummiesGlobal [of w create]) (simp_all add: dummiesGlobal_def create_def)

section \<open>Evaluating the examples\<close>

lemmas handler_defs =
  mapR_def create_def onCodePathStart_def createReferenceMap_leaf onCodePathEnd_def
  onCodePathSegmentStart_def initialize_def Identifier_def getVariable_def
  getReferenceName_def getReferenceName_loop.simps getWriteExpr_def getWriteExpr_loop.simps
  addFreshRead_def registerAssignment_def isLocalVariableWithoutEscape_def
  expression_exit_def isSuspension_def
  markAsRead_def markAsRead_segment_def makeOutdated_def makeOutdated_segment_def Let_def
  fold_simps
  mkAst_def mkNode_def propertyNameOrStar_def

lemma simpleAssignment_fields:
  "ast (simpleAssignment res) = mkAst
        [(0, mkNode ''Program'' None),
         (1, (mkNode ''FunctionDeclaration'' (Some 0))\<lparr>async := True\<rparr>),
         (2, mkNode ''BlockStatement'' (Some 1)),
         (3, mkNode ''ExpressionStatement'' (Some 2)),
         (4, (mkNode ''AssignmentExpression'' (Some 3))\<lparr>left := Some 5, right := Some 6,
               operator := Some ''+=''\<rparr>),
         (5, (mkNode ''Identifier'' (Some 4))\<lparr>name := ''x''\<rparr>),
         (6, (mkNode ''Identifier'' (Some 4))\<lparr>name := ''c''\<rparr>),
         (7, mkNode ''ExpressionStatement'' (Some 0)),
         (8, (mkNode ''Identifier'' (Some 7))\<lparr>name := ''x''\<rparr>)]"
  "scopes (simpleAssignment res) = (\<lambda>s. if s = 1
                     then \<lparr>stype = ''function'', variableScope = 1,
                            references = [simple_x res, simple_c], childScopes = [], block = 1\<rparr>
                     else \<lparr>stype = ''global'', variableScope = 0, references = [elsewhere_x],
                            childScopes = [1], block = 0\<rparr>)"
  "variables (simpleAssignment res) =
     (\<lambda>v. \<lparr>var_name = ''x'', var_scope = 1, var_references = [simple_x res]\<rparr>)"
  "getPropertyName (simpleAssignment res) = (\<lambda>n s. None)"
  "globalScope (simpleAssignment res) = 0"
  by (simp_all add: simpleAssignment_def)

lemma memberAssignment_fields:
  "ast (memberAssignment op prop) = mkAst
        [(0, mkNode ''Program'' None),
         (1, (mkNode ''FunctionDeclaration'' (Some 0))\<lparr>async := True\<rparr>),
         (2, mkNode ''BlockStatement'' (Some 1)),
         (3, mkNode ''ExpressionStatement'' (Some 2)),
         (4, (mkNode ''AssignmentExpression'' (Some 3))\<lparr>left := Some 5, right := Some 8,
               operator := Some op\<rparr>),
         (5, (mkNode ''MemberExpression'' (Some 4))\<lparr>object := Some 6\<rparr>),
         (6, (mkNode ''Identifier'' (Some 5))\<lparr>name := ''a''\<rparr>),
         (7, (mkNode ''Identifier'' (Some 5))\<lparr>name := ''b''\<rparr>),
         (8, (mkNode ''Identifier'' (Some 4))\<lparr>name := ''c''\<rparr>)]"
  "scopes (memberAssignment op prop) = (\<lambda>s. if s = 1
                     then \<lparr>stype = ''function'', variableScope = 1,
                            references = [member_a, member_c], childScopes = [], block = 1\<rparr>
                     else \<lparr>stype = ''global'', variableScope = 0, references = [],
                            childScopes = [1], block = 0\<rparr>)"
  "variables (memberAssignment op prop) =
     (\<lambda>v. \<lparr>var_name = [], var_scope = 0, var_references = []\<rparr>)"
  "getPropertyName (memberAssignment op prop) = (\<lambda>n s. if n = 5 then prop else None)"
  "globalScope (memberAssignment op prop) = 0"
  by (simp_all add: memberAssignment_def)

lemma awaitAssignment_fields:
  "ast (awaitAssignment res) = mkAst
        [(0, mkNode ''Program'' None),
         (1, (mkNode ''FunctionDeclaration'' (Some 0))\<lparr>async := True\<rparr>),
         (2, mkNode ''BlockStatement'' (Some 1)),
         (3, mkNode ''ExpressionStatement'' (Some 2)),
         (4, (mkNode ''AssignmentExpression'' (Some 3))\<lparr>left := Some 5, right := Some 6,
               operator := Some ''+=''\<rparr>),
         (5, (mkNode ''Identifier'' (Some 4))\<lparr>name := ''x''\<rparr>),
         (6, mkNode ''AwaitExpression'' (Some 4)),
         (7, (mkNode ''Identifier'' (Some 6))\<lparr>name := ''c''\<rparr>)]"
  "scopes (awaitAssignment res) = (\<lambda>s. if s = 1
                     then \<lparr>stype = ''function'', variableScope = 1,
                            references = [await_x res, await_c], childScopes = [], block = 1\<rparr>
                     else \<lparr>stype = ''global'', variableScope = 0, references = [],
                            childScopes = [1], block = 0\<rparr>)"
  "variables (awaitAssignment res) =
     (\<lambda>v. \<lparr>var_name = ''x'', var_scope = 1, var_references = [await_x res]\<rparr>)"
  "getPropertyName (awaitAssignment res) = (\<lambda>n s. None)"
  "globalScope (awaitAssignment res) = 0"
  by (simp_all add: awaitAssignment_def)

lemma nestedFunction_fields:
  "ast nestedFunction = mkAst
        [(0, mkNode ''Program'' None),
         (1, (mkNode ''FunctionDeclaration'' (Some 0))\<lparr>async := True\<rparr>),
         (2, mkNode ''BlockStatement'' (Some 1)),
         (3, mkNode ''ExpressionStatement'' (Some 2)),
         (4, (mkNode ''AssignmentExpression'' (Some 3))\<lparr>left := Some 5, right := Some 6,
               operator := Some ''=''\<rparr>),
         (5, (mkNode ''Identifier'' (Some 4))\<lparr>name := ''x''\<rparr>),
         (6, (mkNode ''ArrowFunctionExpression'' (Some 4))\<lparr>async := True\<rparr>),
         (7, mkNode ''BlockStatement'' (Some 6)),
         (8, mkNode ''ExpressionStatement'' (Some 7)),
         (9, (mkNode ''Identifier'' (Some 8))\<lparr>name := ''x''\<rparr>),
         (10, mkNode ''ExpressionStatement'' (Some 7)),
         (11, mkNode ''AwaitExpression'' (Some 10)),
         (12, (mkNode ''Identifier'' (Some 11))\<lparr>name := ''y''\<rparr>)]"
  "scopes nestedFunction = (\<lambda>s. if s = 1
                     then \<lparr>stype = ''function'', variableScope = 1,
                            references = [nested_x_write], childScopes = [2], block = 1\<rparr>
                     else if s = 2
                     then \<lparr>stype = ''function'', variableScope = 2,
                            references = [nested_x_read, nested_y], childScopes = [], block = 6\<rparr>
                     else \<lparr>stype = ''global'', variableScope = 0, references = [],
                            childScopes = [1], block = 0\<rparr>)"
  "variables nestedFunction = (\<lambda>v. \<lparr>var_name = [], var_scope = 0, var_references = []\<rparr>)"
  "getPropertyName nestedFunction = (\<lambda>n s. None)"
  "globalScope nestedFunction = 0"
  by (simp_all add: nestedFunction_def)


lemmas simple_defs = simpleAssignment_fields simple_x_def simple_c_def

lemmas member_defs = memberAssignment_fields member_a_def member_c_def

lemmas await_defs = awaitAssignment_fields await_x_def await_c_def awaitTraversal_def

lemma entered_simple:
  "entered (simpleAssignment res) =
     \<lparr>dummyVariables = Map.empty, assignmentReferences = Map.empty,
      segmentInfo = [0 \<mapsto> \<lparr>outdatedReadVariables = {}, freshReadVariables = {}\<rparr>],
      stack = [\<lparr>codePath = 0,
                referenceMap = Some [5 \<mapsto> simple_x res, 6 \<mapsto> simple_c]\<rparr>],
      reports = []\<rparr>"
  by (simp add: entered_def handler_defs simple_defs)

lemma entered_reached:
  "run (simpleAssignment res) create
     [CodePathStart 0 1, CodePathSegmentStart \<lparr>ident = 0, prevSegments = []\<rparr>] =
   Some (Inr (entered (simpleAssignment res)))"
  by (simp add: entered_def handler_defs simple_defs)

lemma entered_member:
  "entered (memberAssignment op prop) =
     \<lparr>dummyVariables = Map.empty, assignmentReferences = Map.empty,
      segmentInfo = [0 \<mapsto> \<lparr>outdatedReadVariables = {}, freshReadVariables = {}\<rparr>],
      stack = [\<lparr>codePath = 0,
                referenceMap = Some [6 \<mapsto> member_a, 8 \<mapsto> member_c]\<rparr>],
      reports = []\<rparr>"
  by (simp add: entered_def handler_defs member_defs)

lemmas nested_defs = nestedFunction_fields nested_x_write_def nested_x_read_def nested_y_def
  nestedTraversal_def

section \<open>Properties of the rule\<close>

subsection \<open>Functions without suspension\<close>

text \<open>
  C1. A resumable function whose own body has no suspension expression should yield no
  violation. The rule reports one in
  \<^verbatim>\<open>async function outer() { x = async () => { x; await y; }; }\<close>: no expression of
  \<^verbatim>\<open>outer\<close> itself (the assignment, its target, the arrow function) is a suspension, the
  only \<^verbatim>\<open>AwaitExpression\<close> is in the arrow function. The handler \<^verbatim>\<open>:expression:exit\<close> runs for
  the arrow function while the frame of the arrow function is on top of \<^verbatim>\<open>stack\<close>, so the
  pending reference of the assignment of \<^verbatim>\<open>outer\<close> is tested against the segments of the
  arrow function, where \<^verbatim>\<open>x\<close> is outdated, and the assignment is reported.
\<close>

theorem nested_suspension_reports_outer_assignment:
  "\<not> isSuspension nestedFunction 4 \<and> \<not> isSuspension nestedFunction 5 \<and>
   \<not> isSuspension nestedFunction 6 \<and>
   mapR reports (run nestedFunction create nestedTraversal) =
     returns [\<lparr>report_node = 4, messageId = ''nonAtomicUpdate'', data_value = Some 5\<rparr>]"
  by (simp add: handler_defs createReferenceMap_functions nested_defs)

text \<open>
  What the rule does guarantee is the property for a traversal in which no
  \<^verbatim>\<open>AwaitExpression\<close> and no \<^verbatim>\<open>YieldExpression\<close> is left at all, the nested functions
  included. Let \<open>S\<close> hold the segments of the traversal: every segment that starts is in
  \<open>S\<close> with its predecessors, the current segments at every expression exit are in \<open>S\<close>,
  and no segment of \<open>S\<close> has an outdated variable when the traversal begins. Then, whenever
  the traversal returns, every outdated set of \<open>S\<close> is still empty and the list of reports
  is the one the traversal started with.
\<close>

lemma no_suspension_no_violation:
  assumes "outdatedEmpty S (segmentInfo st)"
    and "\<forall>e\<in>set evs. withoutSuspension w S e"
    and "run w st evs = Some (Inr st')"
  shows "outdatedEmpty S (segmentInfo st') \<and> reports st' = reports st"
  using assms
proof (induction evs arbitrary: st)
  case Nil
  then show ?case by simp
next
  case (Cons e evs)
  from Cons.prems(3) obtain st1 where s: "step w st e = Some (Inr st1)"
    and r: "run w st1 evs = Some (Inr st')"
    by (auto simp: bindR_returns_iff)
  from Cons.prems(2) have ok: "withoutSuspension w S e" and oks: "\<forall>e\<in>set evs. withoutSuspension w S e"
    by simp_all
  from step_without_suspension [OF Cons.prems(1) ok s]
  have i: "outdatedEmpty S (segmentInfo st1)" and p: "reports st1 = reports st"
    by simp_all
  from Cons.IH [OF i oks r] p show ?case by simp
qed

text \<open>The traversal of the function of \<^verbatim>\<open>async function f() { x += c; } x;\<close>.\<close>

lemma no_suspension_no_violation_example:
  "\<exists>st'. run (simpleAssignment None) create
           [CodePathStart 0 1, CodePathSegmentStart \<lparr>ident = 0, prevSegments = []\<rparr>,
            IdentifierEnter 5 [0], IdentifierEnter 6 [0], ExpressionExit 6 [0],
            ExpressionExit 4 [0], CodePathEnd] = Some (Inr st') \<and>
         outdatedEmpty {0} (segmentInfo st') \<and> reports st' = []"
proof -
  let ?w = "simpleAssignment None"
  let ?evs = "[CodePathStart 0 1, CodePathSegmentStart \<lparr>ident = 0, prevSegments = []\<rparr>,
            IdentifierEnter 5 [0], IdentifierEnter 6 [0], ExpressionExit 6 [0],
            ExpressionExit 4 [0], CodePathEnd]"
  have 1: "outdatedEmpty {0} (segmentInfo create)"
    by (simp add: outdatedEmpty_def outdatedOf_def create_def)
  have 2: "\<forall>e\<in>set ?evs. withoutSuspension ?w {0} e"
    by (simp add: isSuspension_def simple_defs mkAst_def mkNode_def)
  obtain st' where 3: "run ?w create ?evs = Some (Inr st')"
    by (simp add: handler_defs simple_defs)
  from no_suspension_no_violation [OF 1 2 3] 3 show ?thesis
    by (simp add: create_def)
qed

text \<open>
  With a suspension between the read and the write the function is reported: in
  \<^verbatim>\<open>async function f() { x += await c; }\<close> with \<^verbatim>\<open>x\<close> unresolved the assignment is
  reported when the \<^verbatim>\<open>AwaitExpression\<close> is left.
\<close>

lemma suspension_reported:
  "mapR reports (run (awaitAssignment None) create awaitTraversal) =
   returns [\<lparr>report_node = 4, messageId = ''nonAtomicUpdate'', data_value = Some 5\<rparr>]"
  by (simp add: handler_defs await_defs)

subsection \<open>Local variables\<close>




subsection \<open>The segment store\<close>

text \<open>
  C3. Join monotonicity. When \<^verbatim>\<open>initialize\<close> runs on a segment, the new state of the segment
  contains the outdated set and the fresh set of every predecessor that has state at that
  moment.
\<close>

theorem initialize_join_monotone:
  assumes "p \<in> set (prevSegments segment)" and "info p = Some i"
  shows "\<exists>j. initialize info segment (ident segment) = Some j \<and>
           outdatedReadVariables i \<subseteq> outdatedReadVariables j \<and>
           freshReadVariables i \<subseteq> freshReadVariables j"
proof -
  from assms have "outdatedReadVariables i \<subseteq> (\<Union>q\<in>set (prevSegments segment). outdatedOf info q)"
    and "freshReadVariables i \<subseteq> (\<Union>q\<in>set (prevSegments segment). freshOf info q)"
    by (auto simp: outdatedOf_def freshOf_def split: option.splits)
  then show ?thesis
    by (simp add: initialize_apply)
qed

theorem initialize_join_monotone_witness:
  "0 \<in> set (prevSegments ex_join) \<and>
   ex_info 0 = Some \<lparr>outdatedReadVariables = {Resolved 1}, freshReadVariables = {Dummy ''g''}\<rparr> \<and>
   Resolved 1 \<in> outdatedReadVariables (the (initialize ex_info ex_join 2)) \<and>
   Dummy ''g'' \<in> freshReadVariables (the (initialize ex_info ex_join 2))"
proof -
  have a: "0 \<in> set (prevSegments ex_join)"
    by (simp add: ex_join_def)
  have b: "ex_info 0 = Some \<lparr>outdatedReadVariables = {Resolved 1}, freshReadVariables = {Dummy ''g''}\<rparr>"
    by (simp add: ex_info_def)
  have c: "ident ex_join = 2"
    by (simp add: ex_join_def)
  from initialize_join_monotone [where p = 0 and segment = ex_join and info = ex_info, OF a b]
  show ?thesis
    using a b c by auto
qed

text \<open>
  C4. \<^verbatim>\<open>makeOutdated\<close>, segment by segment: a segment of the list that has state gets the
  union of its outdated and fresh sets as its outdated set and an empty fresh set; a segment
  of the list without state still has none; a segment that is not in the list is unchanged.
\<close>

theorem makeOutdated_postcondition:
  "makeOutdated info segments s =
     (if s \<in> set segments
      then map_option
             (\<lambda>i. \<lparr>outdatedReadVariables = outdatedReadVariables i \<union> freshReadVariables i,
                    freshReadVariables = {}\<rparr>) (info s)
      else info s)"
  using makeOutdated_apply [of info segments s] by (simp add: promote_def [abs_def])

theorem makeOutdated_postcondition_witness:
  "makeOutdated ex_info [0, 1, 0] 0 =
     Some \<lparr>outdatedReadVariables = {Resolved 1, Dummy ''g''}, freshReadVariables = {}\<rparr> \<and>
   makeOutdated ex_info [0, 1, 0] 1 = None \<and>
   makeOutdated ex_info [1] 0 = ex_info 0"
  using makeOutdated_postcondition [of ex_info "[0, 1, 0]" 0]
    makeOutdated_postcondition [of ex_info "[0, 1, 0]" 1]
    makeOutdated_postcondition [of ex_info "[1]" 0]
  by (auto simp: ex_info_def)

text \<open>
  C8. The state of a segment. When a segment starts, its state is exactly the union of the
  outdated sets and the union of the fresh sets of its predecessors (a predecessor without
  state contributes nothing). Every other call of a handler changes the state of no segment
  but the current segments it is given.
\<close>

theorem segment_state_invariant:
  assumes "step w st e = Some (Inr st')"
  shows "(\<forall>segment. e = CodePathSegmentStart segment \<longrightarrow>
            segmentInfo st' (ident segment) =
              Some \<lparr>outdatedReadVariables =
                      (\<Union>p\<in>set (prevSegments segment). outdatedOf (segmentInfo st) p),
                    freshReadVariables =
                      (\<Union>p\<in>set (prevSegments segment). freshOf (segmentInfo st) p)\<rparr>) \<and>
         (\<forall>s. s \<notin> activeSegments e \<longrightarrow> segmentInfo st' s = segmentInfo st s)"
proof (cases e)
  case (CodePathStart cp sc)
  with assms onCodePathStart_frame [of w st cp sc st'] show ?thesis by simp
next
  case CodePathEnd
  with assms onCodePathEnd_frame [of st st'] show ?thesis by simp
next
  case (CodePathSegmentStart segment)
  with assms have "segmentInfo st' = initialize (segmentInfo st) segment"
    by (auto simp: onCodePathSegmentStart_def)
  with CodePathSegmentStart show ?thesis
    by (simp add: initialize_apply)
next
  case (IdentifierEnter node segs)
  with assms have "Identifier w st node segs = Some (Inr st')" by simp
  from Identifier_frame [OF this] IdentifierEnter show ?thesis
    by (auto simp: markAsRead_apply)
next
  case (ExpressionExit node segs)
  with assms have "expression_exit w st node segs = Some (Inr st')" by simp
  from expression_exit_frame [OF this] ExpressionExit show ?thesis
    by (auto simp: makeOutdated_apply)
qed

text \<open>A read of \<^verbatim>\<open>c\<close> on segment 0, then the start of segment 1 after segment 0.\<close>

theorem segment_state_invariant_witness:
  "\<exists>st' st''.
     step (simpleAssignment None) (entered (simpleAssignment None)) (IdentifierEnter 6 [0]) =
       Some (Inr st') \<and>
     segmentInfo st' 0 = Some \<lparr>outdatedReadVariables = {}, freshReadVariables = {Dummy ''c''}\<rparr> \<and>
     step (simpleAssignment None) st' (CodePathSegmentStart \<lparr>ident = 1, prevSegments = [0]\<rparr>) =
       Some (Inr st'') \<and>
     segmentInfo st'' 1 = Some \<lparr>outdatedReadVariables = {}, freshReadVariables = {Dummy ''c''}\<rparr> \<and>
     segmentInfo st'' 0 = segmentInfo st' 0"
proof -
  let ?w = "simpleAssignment None"
  let ?seg = "\<lparr>ident = 1, prevSegments = [0]\<rparr>"
  obtain st' where 1: "step ?w (entered ?w) (IdentifierEnter 6 [0]) = Some (Inr st')"
    and 2: "segmentInfo st' 0 = Some \<lparr>outdatedReadVariables = {}, freshReadVariables = {Dummy ''c''}\<rparr>"
    by (simp add: entered_simple handler_defs simple_defs)
  obtain st'' where 3: "step ?w st' (CodePathSegmentStart ?seg) = Some (Inr st'')"
    by (simp add: onCodePathSegmentStart_def)
  from segment_state_invariant [OF 3] 1 2 3 show ?thesis
    by (simp add: outdatedOf_def freshOf_def)
qed

text \<open>
  C10. A segment on which \<^verbatim>\<open>initialize\<close> was never called has no state, and every operation
  skips it: \<^verbatim>\<open>markAsRead\<close>, \<^verbatim>\<open>makeOutdated\<close> and \<^verbatim>\<open>isOutdated\<close> give the same result with
  the segment removed from their list, \<^verbatim>\<open>initialize\<close> gives the same result with the segment
  removed from the predecessors, and on the segment alone \<^verbatim>\<open>markAsRead\<close> and \<^verbatim>\<open>makeOutdated\<close>
  change nothing and \<^verbatim>\<open>isOutdated\<close> is false. The four operations have no failing branch:
  they are total functions on every store, list and variable.
\<close>

theorem uninitialized_segment_skipped:
  assumes "info s = None"
  shows "markAsRead info segments v = markAsRead info (removeAll s segments) v \<and>
         makeOutdated info segments = makeOutdated info (removeAll s segments) \<and>
         isOutdated info segments v = isOutdated info (removeAll s segments) v \<and>
         initialize info segment =
           initialize info (segment\<lparr>prevSegments := removeAll s (prevSegments segment)\<rparr>) \<and>
         markAsRead info [s] v = info \<and> makeOutdated info [s] = info \<and>
         \<not> isOutdated info [s] v"
proof -
  have e: "outdatedOf info s = {}" "freshOf info s = {}"
    using assms by (simp_all add: outdatedOf_def freshOf_def)
  have 1: "markAsRead info segments v = markAsRead info (removeAll s segments) v"
    using assms by (intro ext) (simp add: markAsRead_apply)
  have 2: "makeOutdated info segments = makeOutdated info (removeAll s segments)"
    using assms by (intro ext) (simp add: makeOutdated_apply)
  have 3: "isOutdated info segments v = isOutdated info (removeAll s segments) v"
    using e by (auto simp: isOutdated_iff)
  have "(\<Union>q\<in>set (prevSegments segment). outdatedOf info q) =
          (\<Union>q\<in>set (prevSegments segment) - {s}. outdatedOf info q)"
       "(\<Union>q\<in>set (prevSegments segment). freshOf info q) =
          (\<Union>q\<in>set (prevSegments segment) - {s}. freshOf info q)"
    using e by auto
  then have 4: "initialize info segment =
      initialize info (segment\<lparr>prevSegments := removeAll s (prevSegments segment)\<rparr>)"
    by (intro ext) (simp add: initialize_apply)
  have 5: "markAsRead info [s] v = info"
    using assms by (intro ext) (simp add: markAsRead_apply)
  have 6: "makeOutdated info [s] = info"
    using assms by (intro ext) (simp add: makeOutdated_apply)
  have 7: "\<not> isOutdated info [s] v"
    using assms by simp
  from 1 2 3 4 5 6 7 show ?thesis by blast
qed

theorem uninitialized_segment_skipped_witness:
  "ex_info 1 = None \<and>
   markAsRead ex_info [1, 0] (Resolved 3) = markAsRead ex_info [0] (Resolved 3) \<and>
   makeOutdated ex_info [1] = ex_info \<and>
   \<not> isOutdated ex_info [1] (Resolved 1) \<and>
   initialize ex_info ex_join = initialize ex_info \<lparr>ident = 2, prevSegments = [0]\<rparr>"
proof -
  have a: "ex_info 1 = None"
    by (simp add: ex_info_def)
  from uninitialized_segment_skipped [where info = ex_info and s = 1 and segments = "[1, 0]"
      and v = "Resolved 3" and segment = ex_join, OF a]
    uninitialized_segment_skipped [where info = ex_info and s = 1 and segments = "[1]"
      and v = "Resolved 1" and segment = ex_join, OF a]
  show ?thesis
    using a by (simp add: ex_join_def)
qed

subsection \<open>Reads and write expressions\<close>

text \<open>
  C5, amended. For a reference found in the reference map of the current frame, the
  \<^verbatim>\<open>Identifier\<close> handler calls \<^verbatim>\<open>markAsRead\<close> on the current segments exactly when the
  reference is a read and the write expression \<^verbatim>\<open>getWriteExpr\<close> resolves for it is absent or
  has a parent whose operator is not \<^verbatim>\<open>=\<close>: the segment store after the call is the one
  \<^verbatim>\<open>markAsRead\<close> gives in that case, and the store before the call otherwise.
\<close>

theorem fresh_read_marked:
  assumes "stack st = fr # upper" and "referenceMap fr = Some m" and "m node = Some reference"
    and "getVariable w st reference = ((v, obj), st1)"
    and "Identifier w st node segs = Some (Inr st')"
  shows "\<exists>we. getWriteExpr w reference = Some (Inr we) \<and>
           segmentInfo st' =
             (if isRead reference \<and> \<not> feedsPlainAssignment w we
              then markAsRead (segmentInfo st) segs v
              else segmentInfo st)"
proof -
  from assms obtain n we st2
    where we: "getWriteExpr w reference = Some (Inr we)"
      and a: "addFreshRead w st1 reference we v segs = Some (Inr st2)"
      and b: "registerAssignment w st2 reference we obj n = Some (Inr st')"
    by (auto simp: Identifier_def bindR_returns_iff)
  from a have "segmentInfo st2 =
      (if isRead reference \<and> \<not> feedsPlainAssignment w we
       then markAsRead (segmentInfo st1) segs v
       else segmentInfo st1)"
    by (auto simp: addFreshRead_def feedsPlainAssignment_def Let_def
        split: if_splits option.splits)
  with getVariable_frame [OF assms(4)] registerAssignment_frame [OF b] we
  show ?thesis by simp
qed

text \<open>The reference \<^verbatim>\<open>a\<close> of \<^verbatim>\<open>a.b += c\<close> is marked.\<close>

theorem fresh_read_marked_witness:
  "\<exists>st'. Identifier (memberAssignment ''+='' (Some ''b''))
           (entered (memberAssignment ''+='' (Some ''b''))) 6 [0] = Some (Inr st') \<and>
         segmentInfo st' 0 =
           Some \<lparr>outdatedReadVariables = {}, freshReadVariables = {Dummy ''a''}\<rparr>"
proof -
  let ?w = "memberAssignment ''+='' (Some ''b'')"
  let ?st = "entered ?w"
  let ?m = "[6 \<mapsto> member_a, 8 \<mapsto> member_c] :: reference_map"
  let ?fr = "\<lparr>codePath = 0, referenceMap = Some ?m\<rparr>"
  let ?obj = "\<lparr>var_name = ''a'', var_scope = 0, var_references = [member_a]\<rparr>"
  let ?st1 = "?st\<lparr>dummyVariables := [''a'' \<mapsto> ?obj]\<rparr>"
  have 1: "stack ?st = ?fr # []"
    by (simp add: entered_member)
  have 2: "referenceMap ?fr = Some ?m"
    by simp
  have 3: "?m 6 = Some member_a"
    by simp
  have 4: "getVariable ?w ?st member_a = ((Dummy ''a'', ?obj), ?st1)"
    by (simp add: getVariable_def Let_def entered_member member_defs mkAst_def mkNode_def)
  obtain st' where 5: "Identifier ?w ?st 6 [0] = Some (Inr st')"
    by (simp add: entered_member handler_defs member_defs)
  have 6: "getWriteExpr ?w member_a = Some (Inr (Some 8))"
    by (simp add: handler_defs member_defs)
  have 7: "isRead member_a" and 8: "\<not> feedsPlainAssignment ?w (Some 8)"
    by (simp_all add: feedsPlainAssignment_def member_defs mkAst_def mkNode_def)
  from fresh_read_marked [OF 1 2 3 4 5] 5 6 7 8
  show ?thesis
    by (simp add: entered_member markAsRead_def markAsRead_segment_def)
qed

text \<open>
  C5 as stated fails on \<^verbatim>\<open>a.b = c\<close>: the reference \<^verbatim>\<open>a\<close> is a read at the head of the member
  chain on the left of a plain assignment, and visiting it leaves the fresh set of the
  current segment empty.
\<close>

theorem chain_head_read_not_marked:
  "isRead member_a \<and>
   memberChain (memberAssignment ''='' (Some ''b'')) (ref_identifier member_a) [5] \<and>
   isLeftOfAssignment (memberAssignment ''='' (Some ''b'')) 5 4 \<and>
   operator (ast (memberAssignment ''='' (Some ''b'')) 4) = Some ''='' \<and>
   mapR (\<lambda>st. segmentInfo st 0)
     (run (memberAssignment ''='' (Some ''b'')) create
        [CodePathStart 0 1, CodePathSegmentStart \<lparr>ident = 0, prevSegments = []\<rparr>,
         IdentifierEnter 6 [0]]) =
     returns (Some \<lparr>outdatedReadVariables = {}, freshReadVariables = {}\<rparr>)"
  by (simp add: handler_defs member_defs isLeftOfAssignment_def)

text \<open>
  C6, amended. \<^verbatim>\<open>getWriteExpr\<close> returns the reference's own \<^verbatim>\<open>writeExpr\<close> when it has one.
  Otherwise let \<open>ps\<close> be the member expressions above the identifier (none, or each having
  the one before as its \<^verbatim>\<open>object\<close>) and \<open>q\<close> the parent of the last: when \<open>q\<close> is an
  \<^verbatim>\<open>AssignmentExpression\<close> with the chain as its left side, the result is the right side of
  \<open>q\<close>, whatever the operator of \<open>q\<close> is; in every other case it is \<^verbatim>\<open>null\<close>.
\<close>

theorem getWriteExpr_resolution:
  "(writeExpr r = Some e \<longrightarrow> getWriteExpr w r = returns (Some e)) \<and>
   (writeExpr r = None \<and> memberChain w (ref_identifier r) ps \<and>
    parent (ast w (last (ref_identifier r # ps))) = Some q \<and>
    \<not> isObjectOf w (last (ref_identifier r # ps)) q \<longrightarrow>
    getWriteExpr w r =
      returns (if isLeftOfAssignment w (last (ref_identifier r # ps)) q
               then right (ast w q) else None))"
proof (intro conjI impI)
  assume "writeExpr r = Some e"
  then show "getWriteExpr w r = returns (Some e)"
    by (simp add: getWriteExpr_def)
next
  assume a: "writeExpr r = None \<and> memberChain w (ref_identifier r) ps \<and>
    parent (ast w (last (ref_identifier r # ps))) = Some q \<and>
    \<not> isObjectOf w (last (ref_identifier r # ps)) q"
  then have "getWriteExpr_loop w (ref_identifier r) =
      Some (Inr (if isLeftOfAssignment w (last (ref_identifier r # ps)) q
                 then right (ast w q) else None))"
    by (intro getWriteExpr_loop_chain) simp_all
  with a show "getWriteExpr w r =
      returns (if isLeftOfAssignment w (last (ref_identifier r # ps)) q
               then right (ast w q) else None)"
    by (simp add: getWriteExpr_def)
qed

text \<open>The references of \<^verbatim>\<open>x += c\<close> and of \<^verbatim>\<open>a.b = c\<close>.\<close>

theorem getWriteExpr_resolution_witness:
  "getWriteExpr (simpleAssignment None) (simple_x None) = returns (Some 6) \<and>
   getWriteExpr (memberAssignment ''='' (Some ''b'')) member_a = returns (Some 8) \<and>
   getWriteExpr (memberAssignment ''='' (Some ''b'')) member_c = returns None"
proof -
  let ?w = "memberAssignment ''='' (Some ''b'')"
  have 1: "writeExpr (simple_x None) = Some 6"
    by (simp add: simple_defs)
  have 2: "writeExpr member_a = None \<and> memberChain ?w (ref_identifier member_a) [5] \<and>
    parent (ast ?w (last (ref_identifier member_a # [5]))) = Some 4 \<and>
    \<not> isObjectOf ?w (last (ref_identifier member_a # [5])) 4"
    by (simp add: member_defs mkAst_def mkNode_def isObjectOf_def)
  have 3: "writeExpr member_c = None \<and> memberChain ?w (ref_identifier member_c) [] \<and>
    parent (ast ?w (last (ref_identifier member_c # []))) = Some 4 \<and>
    \<not> isObjectOf ?w (last (ref_identifier member_c # [])) 4"
    by (simp add: member_defs mkAst_def mkNode_def isObjectOf_def)
  from getWriteExpr_resolution [of "simple_x None" 6 "simpleAssignment None"] 1
    getWriteExpr_resolution [of member_a _ ?w "[5]" 4] 2
    getWriteExpr_resolution [of member_c _ ?w "[]" 4] 3
  show ?thesis
    by (simp add: member_defs mkAst_def mkNode_def isLeftOfAssignment_def)
qed

text \<open>
  C6 as stated fails on \<^verbatim>\<open>a.b += c\<close>: the assignment is compound, and the write expression of
  the reference \<^verbatim>\<open>a\<close> is \<^verbatim>\<open>c\<close>.
\<close>

theorem compound_member_assignment_resolved:
  "writeExpr member_a = None \<and>
   memberChain (memberAssignment ''+='' (Some ''b'')) (ref_identifier member_a) [5] \<and>
   isLeftOfAssignment (memberAssignment ''+='' (Some ''b'')) 5 4 \<and>
   operator (ast (memberAssignment ''+='' (Some ''b'')) 4) = Some ''+='' \<and>
   getWriteExpr (memberAssignment ''+='' (Some ''b'')) member_a = returns (Some 8)"
  by (simp add: getWriteExpr_def getWriteExpr_loop.simps isLeftOfAssignment_def
      member_defs mkAst_def mkNode_def)

subsection \<open>Reference names\<close>

text \<open>
  C7, amended. Let the identifier of a reference be followed upwards by the member expressions
  \<open>ps\<close>, each the parent of the one before and having it as its \<^verbatim>\<open>object\<close>, and let the parent
  \<open>q\<close> of the last one not be a member expression with it as \<^verbatim>\<open>object\<close>. Then
  \<^verbatim>\<open>getReferenceName\<close> returns the identifier's name and one component for each of \<open>ps\<close>,
  joined by \<^verbatim>\<open>.\<close>; the component is what \<^verbatim>\<open>getPropertyName\<close> returns, and \<^verbatim>\<open>*\<close> when that is
  \<^verbatim>\<open>null\<close> or the empty string.
\<close>

theorem getReferenceName_chain:
  assumes "memberChain w (ref_identifier r) ps"
    and "parent (ast w (last (ref_identifier r # ps))) = Some q"
    and "\<not> isObjectOf w (last (ref_identifier r # ps)) q"
  shows "getReferenceName w r =
           returns (join ''.'' (name (ast w (ref_identifier r)) #
             map (\<lambda>p. case getPropertyName w p (from_scope r) of
                          None \<Rightarrow> ''*''
                        | Some s \<Rightarrow> if s = [] then ''*'' else s) ps))"
proof -
  have "(\<lambda>p. propertyNameOrStar w p (from_scope r)) =
        (\<lambda>p. case getPropertyName w p (from_scope r) of
                None \<Rightarrow> ''*''
              | Some s \<Rightarrow> if s = [] then ''*'' else s)"
    by (simp add: propertyNameOrStar_def)
  with getReferenceName_loop_chain [OF assms, of r "[name (ast w (ref_identifier r))]"]
  show ?thesis
    by (simp add: getReferenceName_def)
qed

text \<open>The names of \<^verbatim>\<open>a\<close> in \<^verbatim>\<open>a.b = c\<close> and in \<^verbatim>\<open>a[k] = c\<close>.\<close>

theorem getReferenceName_chain_witness:
  "memberChain (memberAssignment ''='' (Some ''b'')) (ref_identifier member_a) [5] \<and>
   parent (ast (memberAssignment ''='' (Some ''b'')) 5) = Some 4 \<and>
   \<not> isObjectOf (memberAssignment ''='' (Some ''b'')) 5 4 \<and>
   getReferenceName (memberAssignment ''='' (Some ''b'')) member_a = returns ''a.b'' \<and>
   getReferenceName (memberAssignment ''='' None) member_a = returns ''a.*''"
proof -
  let ?w = "memberAssignment ''='' (Some ''b'')"
  let ?v = "memberAssignment ''='' None"
  have 1: "memberChain ?w (ref_identifier member_a) [5]"
    and 2: "parent (ast ?w (last (ref_identifier member_a # [5]))) = Some 4"
    and 3: "\<not> isObjectOf ?w (last (ref_identifier member_a # [5])) 4"
    by (simp_all add: member_defs mkAst_def mkNode_def isObjectOf_def)
  have 4: "memberChain ?v (ref_identifier member_a) [5]"
    and 5: "parent (ast ?v (last (ref_identifier member_a # [5]))) = Some 4"
    and 6: "\<not> isObjectOf ?v (last (ref_identifier member_a # [5])) 4"
    by (simp_all add: member_defs mkAst_def mkNode_def isObjectOf_def)
  from getReferenceName_chain [OF 1 2 3] getReferenceName_chain [OF 4 5 6] 1 2 3
  show ?thesis
    by (simp add: member_defs mkAst_def mkNode_def)
qed

text \<open>
  C7 as stated fails on \<^verbatim>\<open>a[""] = c\<close>: the property is computed and statically known, its
  name is the empty string, and the name of the reference \<^verbatim>\<open>a\<close> is \<^verbatim>\<open>a.*\<close>.
\<close>

theorem empty_property_name_gets_wildcard:
  "getPropertyName (memberAssignment ''='' (Some [])) 5 (from_scope member_a) = Some [] \<and>
   getReferenceName (memberAssignment ''='' (Some [])) member_a = returns ''a.*''"
  by (simp add: getReferenceName_def getReferenceName_loop.simps propertyNameOrStar_def
      member_defs mkAst_def mkNode_def)

subsection \<open>Unresolved references\<close>

text \<open>
  C9. In a state the rule reaches from its creation, let an unresolved reference from a scope
  whose \<^verbatim>\<open>variableScope\<close> is not the global scope be visited, with a write expression that
  is the \<^verbatim>\<open>right\<close> of its parent; the global scope is its own \<^verbatim>\<open>variableScope\<close>. Then
  \<^verbatim>\<open>getVariable\<close> returns the dummy kept under the identifier's name, its scope is the global
  scope and its references hold the visited reference; \<^verbatim>\<open>isLocalVariableWithoutEscape\<close>
  returns false for it; the reference is appended to the pending list of the write
  expression. Any unresolved reference with the same name gets the same dummy, in any state,
  and the dummy's references grow by that reference.
\<close>

theorem unresolved_reference_registered:
  assumes reach: "run w create evs = Some (Inr st)"
    and frame: "stack st = fr # upper" "referenceMap fr = Some m" "m node = Some reference"
    and unresolved: "resolved reference = None"
    and global: "variableScope (scopes w (globalScope w)) = globalScope w"
    and inside: "variableScope (scopes w (from_scope reference)) \<noteq> globalScope w"
    and var: "getVariable w st reference = ((v, obj), stv)"
    and assignment: "getWriteExpr w reference = Some (Inr (Some e))"
      "parent (ast w e) = Some p" "right (ast w p) = Some e"
    and ret: "Identifier w st node segs = Some (Inr st')"
    and same: "resolved other = None"
      "name (ast w (ref_identifier other)) = name (ast w (ref_identifier reference))"
  shows "v = Dummy (name (ast w (ref_identifier reference))) \<and>
         var_scope obj = globalScope w \<and> reference \<in> set (var_references obj) \<and>
         (\<exists>n. getReferenceName w reference = Some (Inr n) \<and>
              isLocalVariableWithoutEscape w obj n = Some (Inr False)) \<and>
         assignmentReferences st' e =
           Some ((case assignmentReferences st e of None \<Rightarrow> [] | Some refs \<Rightarrow> refs) @ [reference]) \<and>
         fst (fst (getVariable w anyState other)) = v \<and>
         var_references (snd (fst (getVariable w stv other))) = var_references obj @ [other]"
proof -
  note dg = reachable_dummiesGlobal [OF reach]
  note u = getVariable_unresolved [OF dg unresolved var]
  from u have mem: "reference \<in> set (var_references obj)"
    by (metis last_in_set)
  from ret frame var assignment obtain n stm
    where n: "getReferenceName w reference = Some (Inr n)"
      and a: "addFreshRead w stv reference (Some e) v segs = Some (Inr stm)"
      and b: "registerAssignment w stm reference (Some e) obj n = Some (Inr st')"
    by (auto simp: Identifier_def bindR_returns_iff)
  from b assignment obtain isLocal
    where l: "isLocalVariableWithoutEscape w obj n = Some (Inr isLocal)"
      and s: "st' = (if isLocal then stm
                     else stm\<lparr>assignmentReferences := (assignmentReferences stm)(e \<mapsto>
                            (case assignmentReferences stm e of None \<Rightarrow> [] | Some refs \<Rightarrow> refs)
                              @ [reference])\<rparr>)"
    by (auto simp: registerAssignment_def bindR_returns_iff)
  from isLocalVariableWithoutEscape_returns [OF l] mem n u global inside
  have nl: "\<not> isLocal"
    by auto
  from getVariable_frame [OF var] addFreshRead_frame [OF a]
  have "assignmentReferences stm = assignmentReferences st"
    by simp
  with s nl have reg: "assignmentReferences st' e =
      Some ((case assignmentReferences st e of None \<Rightarrow> [] | Some refs \<Rightarrow> refs) @ [reference])"
    by simp
  from same u have sh: "fst (fst (getVariable w anyState other)) = v"
    by (simp add: getVariable_def Let_def)
  from same u have acc: "var_references (snd (fst (getVariable w stv other))) = var_references obj @ [other]"
    by (simp add: getVariable_def Let_def)
  from u mem n l nl reg sh acc show ?thesis
    by simp
qed

text \<open>The unresolved \<^verbatim>\<open>x\<close> of \<^verbatim>\<open>async function f() { x += c; } x;\<close>.\<close>

theorem unresolved_reference_registered_witness:
  "\<exists>st'. Identifier (simpleAssignment None) (entered (simpleAssignment None)) 5 [0] =
           Some (Inr st') \<and>
         assignmentReferences st' 6 = Some [simple_x None] \<and>
         isLocalVariableWithoutEscape (simpleAssignment None)
           \<lparr>var_name = ''x'', var_scope = 0, var_references = [simple_x None]\<rparr> ''x'' =
           Some (Inr False) \<and>
         fst (fst (getVariable (simpleAssignment None) create elsewhere_x)) = Dummy ''x''"
proof -
  let ?w = "simpleAssignment None"
  let ?st = "entered ?w"
  let ?m = "[5 \<mapsto> simple_x None, 6 \<mapsto> simple_c] :: reference_map"
  let ?fr = "\<lparr>codePath = 0, referenceMap = Some ?m\<rparr>"
  let ?obj = "\<lparr>var_name = ''x'', var_scope = 0, var_references = [simple_x None]\<rparr>"
  let ?st1 = "?st\<lparr>dummyVariables := [''x'' \<mapsto> ?obj]\<rparr>"
  note reach = entered_reached [of None]
  have 1: "stack ?st = ?fr # []"
    by (simp add: entered_simple)
  have 2: "referenceMap ?fr = Some ?m"
    by simp
  have 3: "?m 5 = Some (simple_x None)"
    by simp
  have 4: "resolved (simple_x None) = None"
    by (simp add: simple_defs)
  have 5: "variableScope (scopes ?w (globalScope ?w)) = globalScope ?w"
    by (simp add: simple_defs)
  have 6: "variableScope (scopes ?w (from_scope (simple_x None))) \<noteq> globalScope ?w"
    by (simp add: simple_defs)
  have 7: "getVariable ?w ?st (simple_x None) = ((Dummy ''x'', ?obj), ?st1)"
    by (simp add: getVariable_def Let_def entered_simple simple_defs mkAst_def mkNode_def)
  have 8: "getWriteExpr ?w (simple_x None) = Some (Inr (Some 6))"
    by (simp add: getWriteExpr_def simple_defs)
  have 9: "parent (ast ?w 6) = Some 4" and 10: "right (ast ?w 4) = Some 6"
    by (simp_all add: simple_defs mkAst_def mkNode_def)
  obtain st' where 11: "Identifier ?w ?st 5 [0] = Some (Inr st')"
    by (simp add: entered_simple handler_defs simple_defs)
  have 12: "resolved elsewhere_x = None"
    and 13: "name (ast ?w (ref_identifier elsewhere_x)) = name (ast ?w (ref_identifier (simple_x None)))"
    by (simp_all add: elsewhere_x_def simple_defs mkAst_def mkNode_def)
  have 14: "getReferenceName ?w (simple_x None) = Some (Inr ''x'')"
    by (simp add: handler_defs simple_defs)
  from unresolved_reference_registered [where anyState = create, OF reach 1 2 3 4 5 6 7 8 9 10 11 12 13]
    11 14
  show ?thesis
    by (simp add: entered_simple simple_defs mkAst_def mkNode_def)
qed

end
